theory Spec2Isabelle
  imports Main "HOL-Library.Sublist" "HOL-Library.AList"
begin

section \<open>Python strings\<close>

text \<open>
  Query expressions are Python \<^verbatim>\<open>str\<close> values, modelled as \<^typ>\<open>string\<close>
  (lists of 8-bit characters, so code points above 255 are outside the model).
  The four string operations the script uses are embedded with Python's semantics:
  \<^verbatim>\<open>sub in s\<close>, \<^verbatim>\<open>s.replace(old, new[, count])\<close>, \<^verbatim>\<open>s.split(sep)\<close> for a
  one-character separator, and \<^verbatim>\<open>s.strip()\<close>.
\<close>

text \<open>\<^verbatim>\<open>sub in s\<close>: \<open>sub\<close> occurs in \<open>s\<close> as a contiguous substring.\<close>

fun str_in :: "string \<Rightarrow> string \<Rightarrow> bool" where
  "str_in sub [] = (sub = [])"
| "str_in sub (c # s) = (prefix sub (c # s) \<or> str_in sub s)"

text \<open>
  \<^verbatim>\<open>s.replace(old, new, count)\<close>: the leftmost \<open>count\<close> non-overlapping occurrences of
  \<open>old\<close> are replaced. An empty \<open>old\<close> matches before every character and at the end.
\<close>

fun replace_count :: "string \<Rightarrow> string \<Rightarrow> nat \<Rightarrow> string \<Rightarrow> string" where
  "replace_count old new 0 s = s"
| "replace_count old new (Suc n) [] = (if old = [] then new else [])"
| "replace_count old new (Suc n) (c # s) =
     (if old = [] then new @ c # replace_count old new n s
      else if prefix old (c # s) then new @ replace_count old new n (drop (length old) (c # s))
      else c # replace_count old new (Suc n) s)"

text \<open>\<^verbatim>\<open>s.replace(old, new)\<close>: every non-overlapping occurrence, scanning from the left.\<close>

function replace :: "string \<Rightarrow> string \<Rightarrow> string \<Rightarrow> string" where
  "replace old new [] = (if old = [] then new else [])"
| "replace old new (c # s) =
     (if old = [] then new @ c # replace old new s
      else if prefix old (c # s) then new @ replace old new (drop (length old) (c # s))
      else c # replace old new s)"
  by pat_completeness auto
termination
  by (relation "measure (\<lambda>(old, new, s). length s)") auto

text \<open>\<^verbatim>\<open>s.split(sep)\<close> for a separator of one character; the result is never empty.\<close>

fun split :: "char \<Rightarrow> string \<Rightarrow> string list" where
  "split sep [] = [[]]"
| "split sep (c # s) =
     (if c = sep then [] # split sep s
      else (case split sep s of [] \<Rightarrow> [[c]] | p # ps \<Rightarrow> (c # p) # ps))"

text \<open>
  \<^verbatim>\<open>s.strip()\<close> removes leading and trailing whitespace; \<open>isspace\<close> lists the code
  points below 256 that Python's \<^verbatim>\<open>str.isspace\<close> accepts.
\<close>

definition isspace :: "char \<Rightarrow> bool" where
  "isspace c = (of_char c \<in> {9, 10, 11, 12, 13, 28, 29, 30, 31, 32, 133, 160 :: nat})"

definition strip :: "string \<Rightarrow> string" where
  "strip s = rev (dropWhile isspace (rev (dropWhile isspace s)))"

text \<open>\<^verbatim>\<open>str(n)\<close> for an integer: its decimal digits, with a sign when negative.\<close>

fun digits :: "nat \<Rightarrow> string" where
  "digits n = (if n < 10 then [''0123456789'' ! n]
               else digits (n div 10) @ [''0123456789'' ! (n mod 10)])"

declare digits.simps [simp del]

definition str_int :: "int \<Rightarrow> string" where
  "str_int i = (if i < 0 then CHR ''-'' # digits (nat (- i)) else digits (nat i))"

section \<open>JSON documents and Python's operations on them\<close>

text \<open>
  What \<^verbatim>\<open>json.load\<close> returns: \<^verbatim>\<open>None\<close>, \<^verbatim>\<open>bool\<close>, \<^verbatim>\<open>int\<close>, \<^verbatim>\<open>float\<close>, \<^verbatim>\<open>str\<close>,
  \<^verbatim>\<open>list\<close> and \<^verbatim>\<open>dict\<close>. A dict keeps insertion order, so it is an association
  list; lookup reads the first binding of a key and assignment replaces it in place or
  appends a new key at the end (\<^const>\<open>map_of\<close> and \<^const>\<open>AList.update\<close>).
  A float is carried as its \<^verbatim>\<open>repr\<close> text: the script only formats floats and tests
  them for zero, and the \<^verbatim>\<open>repr\<close> of a zero is \<^verbatim>\<open>0.0\<close> or \<^verbatim>\<open>-0.0\<close>.
\<close>

datatype json =
    JNull
  | JBool bool
  | JInt int
  | JFloat string
  | JStr string
  | JList "json list"
  | JDict "(string \<times> json) list"

text \<open>The exceptions the script can meet; all are subclasses of \<^verbatim>\<open>Exception\<close>.\<close>

datatype error =
    TypeError
  | AttributeError
  | KeyError
  | JSONDecodeError
  | FileNotFoundError
  | OSError
  | RecursionError
  | UnicodeEncodeError

fun bind :: "error + 'a \<Rightarrow> ('a \<Rightarrow> error + 'b) \<Rightarrow> error + 'b" where
  "bind (Inl e) f = Inl e"
| "bind (Inr x) f = f x"

text \<open>Running a loop body over a list of items stops at the first exception.\<close>

fun mapM :: "('a \<Rightarrow> error + 'b) \<Rightarrow> 'a list \<Rightarrow> error + 'b list" where
  "mapM f [] = Inr []"
| "mapM f (x # xs) = bind (f x) (\<lambda>y. bind (mapM f xs) (\<lambda>ys. Inr (y # ys)))"

text \<open>Truth value of an object, as \<^verbatim>\<open>not x\<close> tests it.\<close>

fun truthy :: "json \<Rightarrow> bool" where
  "truthy JNull = False"
| "truthy (JBool b) = b"
| "truthy (JInt i) = (i \<noteq> 0)"
| "truthy (JFloat r) = (r \<noteq> ''0.0'' \<and> r \<noteq> ''-0.0'')"
| "truthy (JStr s) = (s \<noteq> [])"
| "truthy (JList xs) = (xs \<noteq> [])"
| "truthy (JDict kvs) = (kvs \<noteq> [])"

text \<open>\<^verbatim>\<open>key in x\<close> for a string key: key of a dict, element of a list, substring of a string.\<close>

fun contains :: "string \<Rightarrow> json \<Rightarrow> error + bool" where
  "contains k (JDict kvs) = Inr (map_of kvs k \<noteq> None)"
| "contains k (JList xs) = Inr (JStr k \<in> set xs)"
| "contains k (JStr s) = Inr (str_in k s)"
| "contains k JNull = Inl TypeError"
| "contains k (JBool b) = Inl TypeError"
| "contains k (JInt i) = Inl TypeError"
| "contains k (JFloat r) = Inl TypeError"

text \<open>\<^verbatim>\<open>x[key]\<close> for a string key: only a dict can be indexed by a string.\<close>

fun getitem :: "json \<Rightarrow> string \<Rightarrow> error + json" where
  "getitem (JDict kvs) k = (case map_of kvs k of Some v \<Rightarrow> Inr v | None \<Rightarrow> Inl KeyError)"
| "getitem JNull k = Inl TypeError"
| "getitem (JBool b) k = Inl TypeError"
| "getitem (JInt i) k = Inl TypeError"
| "getitem (JFloat r) k = Inl TypeError"
| "getitem (JStr s) k = Inl TypeError"
| "getitem (JList xs) k = Inl TypeError"

text \<open>\<^verbatim>\<open>x[key] = v\<close> for a string key.\<close>

fun setitem :: "json \<Rightarrow> string \<Rightarrow> json \<Rightarrow> error + json" where
  "setitem (JDict kvs) k v = Inr (JDict (AList.update k v kvs))"
| "setitem JNull k v = Inl TypeError"
| "setitem (JBool b) k v = Inl TypeError"
| "setitem (JInt i) k v = Inl TypeError"
| "setitem (JFloat r) k v = Inl TypeError"
| "setitem (JStr s) k v = Inl TypeError"
| "setitem (JList xs) k v = Inl TypeError"

text \<open>\<^verbatim>\<open>x.get(key, default)\<close>: only a dict has the method.\<close>

fun get_method :: "json \<Rightarrow> string \<Rightarrow> json \<Rightarrow> error + json" where
  "get_method (JDict kvs) k d = Inr (case map_of kvs k of Some v \<Rightarrow> v | None \<Rightarrow> d)"
| "get_method JNull k d = Inl AttributeError"
| "get_method (JBool b) k d = Inl AttributeError"
| "get_method (JInt i) k d = Inl AttributeError"
| "get_method (JFloat r) k d = Inl AttributeError"
| "get_method (JStr s) k d = Inl AttributeError"
| "get_method (JList xs) k d = Inl AttributeError"

text \<open>
  \<^verbatim>\<open>for item in x\<close>: the elements of a list, the keys of a dict, the characters of a
  string.
\<close>

fun iter :: "json \<Rightarrow> error + json list" where
  "iter (JList xs) = Inr xs"
| "iter (JDict kvs) = Inr (map (\<lambda>kv. JStr (fst kv)) kvs)"
| "iter (JStr s) = Inr (map (\<lambda>c. JStr [c]) s)"
| "iter JNull = Inl TypeError"
| "iter (JBool b) = Inl TypeError"
| "iter (JInt i) = Inl TypeError"
| "iter (JFloat r) = Inl TypeError"

text \<open>
  A loop \<^verbatim>\<open>for item in x: body(item)\<close> whose body mutates the item in place. The
  elements of a list are the objects the body changes, so the list afterwards holds
  the changed elements; the keys of a dict and the characters of a string are
  immutable strings, so those containers stay as they were.
\<close>

definition for_each :: "(json \<Rightarrow> error + json) \<Rightarrow> json \<Rightarrow> error + json" where
  "for_each body x =
     bind (iter x) (\<lambda>items.
     bind (mapM body items) (\<lambda>items'.
     Inr (case x of JList _ \<Rightarrow> JList items' | _ \<Rightarrow> x)))"

text \<open>
  An object fetched from a dict and mutated in place is seen changed through the dict;
  a default that \<^verbatim>\<open>get\<close> returned for a missing key is not stored.
\<close>

fun store_back :: "json \<Rightarrow> string \<Rightarrow> json \<Rightarrow> json" where
  "store_back (JDict kvs) k v =
     (if map_of kvs k \<noteq> None then JDict (AList.update k v kvs) else JDict kvs)"
| "store_back x k v = x"

text \<open>
  \<^verbatim>\<open>f"{x}"\<close>: a string is inserted as it is, an integer in decimal, and so on. The
  \<^verbatim>\<open>repr\<close> of a list or dict is not modelled; it is the parameter \<open>repr\<close>.
\<close>

fun format :: "(json \<Rightarrow> string) \<Rightarrow> json \<Rightarrow> string" where
  "format repr (JStr s) = s"
| "format repr (JInt i) = str_int i"
| "format repr (JBool b) = (if b then ''True'' else ''False'')"
| "format repr JNull = ''None''"
| "format repr (JFloat r) = r"
| "format repr (JList xs) = repr (JList xs)"
| "format repr (JDict kvs) = repr (JDict kvs)"

section \<open>The configuration table\<close>

record link_config =
  title :: string
  url :: string
  tooltip :: string

record config =
  specific_variables :: "json list"
  drill_down_links :: "link_config list"
  alert_filter :: string

definition overview_link :: link_config where
  "overview_link = \<lparr>title = ''Overview Dashboard'',
     url = ''/d/overview?var-namespace=$namespace&from=$__from&to=$__to'',
     tooltip = ''Return to overview dashboard''\<rparr>"


definition database_config :: config where
  \<open>database_config = \<lparr>
     specific_variables = [JDict [
       (''name'', JStr ''table''),
       (''type'', JStr ''query''),
       (''query'', JStr ''label_values(birthday_scheduler_database_query_duration_seconds_bucket{namespace="$namespace", instance=~"$instance"}, table)''),
       (''label'', JStr ''Table''),
       (''description'', JStr ''Filter by table name''),
       (''includeAll'', JBool True),
       (''multi'', JBool True)]],
     drill_down_links = [
       \<lparr>title = ''Infrastructure Dashboard'',
        url = ''/d/infrastructure?var-namespace=$namespace&var-instance=$instance&from=$__from&to=$__to'',
        tooltip = ''View system resource impact on database''\<rparr>,
       overview_link],
     alert_filter = ''DBConnectionPoolExhausted|DatabaseDown|DBConnectionPoolHigh|SlowQueries|DatabaseQueryLatency''\<rparr>\<close>


definition overview_dashboard_config :: config where
  "overview_dashboard_config = \<lparr>
     specific_variables = [],
     drill_down_links = [
       \<lparr>title = ''API Performance'',
        url = ''/d/api-performance?var-namespace=$namespace&from=$__from&to=$__to'',
        tooltip = ''View detailed API metrics''\<rparr>,
       \<lparr>title = ''Message Processing'',
        url = ''/d/message-processing?var-namespace=$namespace&from=$__from&to=$__to'',
        tooltip = ''View message queue metrics''\<rparr>,
       \<lparr>title = ''Database'',
        url = ''/d/database?var-namespace=$namespace&from=$__from&to=$__to'',
        tooltip = ''View database performance''\<rparr>,
       \<lparr>title = ''Infrastructure'',
        url = ''/d/infrastructure?var-namespace=$namespace&from=$__from&to=$__to'',
        tooltip = ''View infrastructure health''\<rparr>,
       \<lparr>title = ''Security'',
        url = ''/d/security?var-namespace=$namespace&from=$__from&to=$__to'',
        tooltip = ''View security metrics''\<rparr>],
     alert_filter = ''.*''\<rparr>"

definition security_config :: config where
  "security_config = \<lparr>
     specific_variables = [],
     drill_down_links = [
       overview_link,
       \<lparr>title = ''API Performance'',
        url = ''/d/api-performance?var-namespace=$namespace&from=$__from&to=$__to'',
        tooltip = ''View API security details''\<rparr>],
     alert_filter = ''SecurityBreach|UnauthorizedAccess|HighFailedLogins|RateLimitExceeded''\<rparr>"


section \<open>The enhancement routines\<close>

definition current :: "string \<Rightarrow> string \<Rightarrow> json" where
  "current t v = JDict [(''text'', JStr t), (''value'', JStr v)]"

definition interval_option :: "string \<Rightarrow> bool \<Rightarrow> json" where
  "interval_option t sel = JDict [(''text'', JStr t), (''value'', JStr t), (''selected'', JBool sel)]"

definition get_common_variables :: "json list" where
  \<open>get_common_variables = [
     JDict [
       (''name'', JStr ''datasource''),
       (''type'', JStr ''datasource''),
       (''query'', JStr ''prometheus''),
       (''current'', current ''Prometheus'' ''Prometheus''),
       (''hide'', JInt 0),
       (''includeAll'', JBool False),
       (''multi'', JBool False),
       (''options'', JList []),
       (''refresh'', JInt 1),
       (''regex'', JStr []),
       (''skipUrlSync'', JBool False)],
     JDict [
       (''name'', JStr ''namespace''),
       (''type'', JStr ''query''),
       (''datasource'', JStr ''${datasource}''),
       (''query'', JStr ''label_values(birthday_scheduler_api_requests_total, namespace)''),
       (''current'', current ''production'' ''production''),
       (''hide'', JInt 0),
       (''includeAll'', JBool False),
       (''multi'', JBool False),
       (''options'', JList []),
       (''refresh'', JInt 1),
       (''regex'', JStr []),
       (''skipUrlSync'', JBool False),
       (''sort'', JInt 1),
       (''label'', JStr ''Namespace''),
       (''description'', JStr ''Kubernetes namespace filter'')],
     JDict [
       (''name'', JStr ''instance''),
       (''type'', JStr ''query''),
       (''datasource'', JStr ''${datasource}''),
       (''query'', JStr ''label_values(birthday_scheduler_api_requests_total{namespace="$namespace"}, instance)''),
       (''current'', current ''All'' ''$__all''),
       (''hide'', JInt 0),
       (''includeAll'', JBool True),
       (''multi'', JBool True),
       (''options'', JList []),
       (''refresh'', JInt 1),
       (''regex'', JStr []),
       (''skipUrlSync'', JBool False),
       (''sort'', JInt 1),
       (''label'', JStr ''Instance''),
       (''description'', JStr ''Filter by instance/pod'')],
     JDict [
       (''name'', JStr ''interval''),
       (''type'', JStr ''interval''),
       (''query'', JStr ''1m,5m,10m,30m,1h''),
       (''current'', current ''5m'' ''5m''),
       (''hide'', JInt 0),
       (''includeAll'', JBool False),
       (''multi'', JBool False),
       (''options'', JList [
          interval_option ''1m'' False,
          interval_option ''5m'' True,
          interval_option ''10m'' False,
          interval_option ''30m'' False,
          interval_option ''1h'' False]),
       (''label'', JStr ''Interval''),
       (''description'', JStr ''Time aggregation interval'')]]\<close>

definition create_annotations :: "string \<Rightarrow> json" where
  \<open>create_annotations alert_filter' =
     JDict [(''list'', JList [JDict [
       (''datasource'', JStr ''${datasource}''),
       (''enable'', JBool True),
       (''expr'', JStr (''ALERTS{alertname=~"'' @ alert_filter' @ ''", namespace="$namespace"}'')),
       (''iconColor'', JStr ''rgba(255, 96, 96, 1)''),
       (''name'', JStr ''Alerts''),
       (''step'', JStr ''60s''),
       (''tagKeys'', JStr ''alertname,severity''),
       (''textFormat'', JStr ''{{alertname}}: {{severity}}''),
       (''titleFormat'', JStr ''Alert'')]])]\<close>

definition create_link :: "link_config \<Rightarrow> json" where
  "create_link link = JDict [
     (''title'', JStr (title link)),
     (''url'', JStr (url link)),
     (''icon'', JStr ''dashboard''),
     (''tooltip'', JStr (tooltip link)),
     (''type'', JStr ''link''),
     (''targetBlank'', JBool False)]"

definition create_links :: "link_config list \<Rightarrow> json" where
  "create_links drill_down_config = JList (map create_link drill_down_config)"

text \<open>
  The filter step of \<^verbatim>\<open>update_panel_queries\<close> (the body of ``Add namespace filter if
  not present''), on the expression string.
\<close>

definition add_namespace_filter :: "string \<Rightarrow> string" where
  \<open>add_namespace_filter expr =
    (if \<not> str_in ''namespace='' expr \<and> str_in ''birthday_scheduler_'' expr then
       let expr1 = replace_count ''birthday_scheduler_'' ''birthday_scheduler_'' 1 expr;
           expr2 = replace_count ''{'' ''{namespace="$namespace", instance=~"$instance", '' 1 expr1
       in if \<not> str_in ''{'' expr2 then
            let metric_parts = split CHR ''['' expr2 in
            if length metric_parts > 0 then
              let metric_name = strip (last (split CHR ''('' (metric_parts ! 0)))
              in replace metric_name
                   (metric_name @ ''{namespace="$namespace", instance=~"$instance"}'') expr2
            else expr2
          else expr2
     else expr)\<close>

text \<open>The filter step followed by the replacement of the window \<^verbatim>\<open>[5m]\<close>.\<close>

definition update_expr :: "string \<Rightarrow> string" where
  "update_expr expr = replace ''[5m]'' ''[$interval]'' (add_namespace_filter expr)"

text \<open>
  The same on the object stored under \<^verbatim>\<open>"expr"\<close>. The \<^verbatim>\<open>in\<close> tests raise
  \<^verbatim>\<open>TypeError\<close> on a number, a boolean or null; a list or dict passes them and fails
  at \<^verbatim>\<open>.replace\<close>, whichever branch is taken.
\<close>

fun update_expr_value :: "json \<Rightarrow> error + json" where
  "update_expr_value (JStr expr) = Inr (JStr (update_expr expr))"
| "update_expr_value (JList xs) = Inl AttributeError"
| "update_expr_value (JDict kvs) = Inl AttributeError"
| "update_expr_value JNull = Inl TypeError"
| "update_expr_value (JBool b) = Inl TypeError"
| "update_expr_value (JInt i) = Inl TypeError"
| "update_expr_value (JFloat r) = Inl TypeError"

text \<open>The body of the loop over the targets of a panel.\<close>

definition update_target :: "json \<Rightarrow> error + json" where
  "update_target target =
     bind (contains ''expr'' target) (\<lambda>has_expr.
     if has_expr then
       bind (getitem target ''expr'') (\<lambda>expr.
       bind (update_expr_value expr) (\<lambda>expr'.
       bind (setitem target ''expr'' expr') (\<lambda>target1.
       bind (contains ''refId'' target1) (\<lambda>has_refId.
       if \<not> has_refId then setitem target1 ''refId'' (JStr ''A'') else Inr target1))))
     else Inr target)"

text \<open>The body of the loop over the panels.\<close>

definition update_panel :: "(json \<Rightarrow> string) \<Rightarrow> json \<Rightarrow> error + json" where
  "update_panel repr panel =
     bind (contains ''targets'' panel) (\<lambda>has_targets.
     bind (if has_targets then
             bind (getitem panel ''targets'') (\<lambda>targets.
             bind (for_each update_target targets) (\<lambda>targets'.
             Inr (store_back panel ''targets'' targets')))
           else Inr panel) (\<lambda>panel1.
     bind (contains ''description'' panel1) (\<lambda>has_description.
     bind (if has_description then
             bind (getitem panel1 ''description'') (\<lambda>d. Inr (\<not> truthy d))
           else Inr True) (\<lambda>missing.
     if missing then
       bind (get_method panel1 ''id'' (JStr [])) (\<lambda>panel_id.
       bind (get_method panel1 ''title'' (JStr ''No title'')) (\<lambda>panel_title.
       setitem panel1 ''description''
         (JStr (''Panel '' @ format repr panel_id @ '': '' @ format repr panel_title))))
     else Inr panel1))))"

definition update_panel_queries :: "(json \<Rightarrow> string) \<Rightarrow> json \<Rightarrow> string \<Rightarrow> error + json" where
  "update_panel_queries repr panels dashboard_name = for_each (update_panel repr) panels"

text \<open>
  \<^verbatim>\<open>enhance_dashboard\<close> between \<^verbatim>\<open>json.load\<close> and \<^verbatim>\<open>json.dump\<close>: from the loaded
  document to the document that is written.
\<close>

definition enhance_document :: "(json \<Rightarrow> string) \<Rightarrow> string \<Rightarrow> config \<Rightarrow> json \<Rightarrow> error + json" where
  "enhance_document repr name cfg data =
     bind (get_method data ''dashboard'' (JDict [])) (\<lambda>dashboard.
     let variables = get_common_variables @ specific_variables cfg in
     bind (setitem dashboard ''templating'' (JDict [(''list'', JList variables)])) (\<lambda>dashboard1.
     bind (setitem dashboard1 ''links'' (create_links (drill_down_links cfg))) (\<lambda>dashboard2.
     bind (setitem dashboard2 ''annotations'' (create_annotations (alert_filter cfg))) (\<lambda>dashboard3.
     bind (get_method dashboard3 ''panels'' (JList [])) (\<lambda>panels.
     bind (update_panel_queries repr panels name) (\<lambda>panels'.
     setitem data ''dashboard'' (store_back dashboard3 ''panels'' panels')))))))"

section \<open>Files, standard output and the main loop\<close>

text \<open>
  A file of the dashboards directory is described by what \<^verbatim>\<open>open\<close> and \<^verbatim>\<open>json.load\<close>
  make of it: a document, or the exception raised (the file cannot be opened, is not
  JSON, or is nested too deeply for the parser).

  Writing is \<^verbatim>\<open>open(path, 'w')\<close> followed by \<^verbatim>\<open>json.dump\<close>. Opening truncates the
  file, and either step can raise: the disk is full, the file is read-only, the
  document is nested too deeply for the encoder. What happens is the environment's
  choice, so the world carries it as a function of the path and the document:
  \<open>Written\<close>, the file then loads as the document written; \<open>Open_raises e\<close>, the file is
  as it was; \<open>Dump_raises e c\<close>, the file was truncated and is left holding \<open>c\<close>.

  The lines the script prints are the messages. Two of them carry a character outside
  ASCII: the line for a file that was enhanced starts with a check mark (U+2713) and
  the line for a file whose enhancement raised starts with a ballot cross (U+2717).
  \<^verbatim>\<open>print\<close> raises when standard output cannot take a line, as it does with
  \<^verbatim>\<open>UnicodeEncodeError\<close> for these two on an output that cannot encode the marks; the
  world says for every line whether printing it raises. A line that raises is not
  printed.
\<close>

datatype file_content = Doc json | Unloadable error

datatype write_outcome = Written | Open_raises error | Dump_raises error file_content

datatype message =
    Dir_not_found
  | Starting
  | Not_found_skipping string
  | Enhancing string
  | Enhanced string
  | Error_enhancing string error
  | Completed

record world =
  dir_exists :: bool
  files :: "string \<rightharpoonup> file_content"
  out :: "message list"
  print_error :: "message \<Rightarrow> error option"
  write_outcome_of :: "string \<Rightarrow> json \<Rightarrow> write_outcome"

text \<open>A statement that may raise, followed by the rest; an exception skips the rest.\<close>

fun and_then :: "(error + 'a) \<times> world \<Rightarrow> ('a \<Rightarrow> world \<Rightarrow> (error + 'b) \<times> world) \<Rightarrow> (error + 'b) \<times> world" where
  "and_then (Inl e, w) f = (Inl e, w)"
| "and_then (Inr x, w) f = f x w"

definition print :: "message \<Rightarrow> world \<Rightarrow> (error + unit) \<times> world" where
  "print m w =
     (case print_error w m of
        Some e \<Rightarrow> (Inl e, w)
      | None \<Rightarrow> (Inr (), w\<lparr>out := out w @ [m]\<rparr>))"

text \<open>The two \<^verbatim>\<open>with open\<close> blocks of \<^verbatim>\<open>enhance_dashboard\<close>.\<close>

definition load :: "string \<Rightarrow> world \<Rightarrow> (error + json) \<times> world" where
  "load path w =
     (case files w path of
        None \<Rightarrow> (Inl FileNotFoundError, w)
      | Some (Unloadable e) \<Rightarrow> (Inl e, w)
      | Some (Doc data) \<Rightarrow> (Inr data, w))"

definition dump :: "string \<Rightarrow> json \<Rightarrow> world \<Rightarrow> (error + unit) \<times> world" where
  "dump path data w =
     (case write_outcome_of w path data of
        Open_raises e \<Rightarrow> (Inl e, w)
      | Dump_raises e c \<Rightarrow> (Inl e, w\<lparr>files := (files w)(path \<mapsto> c)\<rparr>)
      | Written \<Rightarrow> (Inr (), w\<lparr>files := (files w)(path \<mapsto> Doc data)\<rparr>))"

definition enhance_dashboard :: "(json \<Rightarrow> string) \<Rightarrow> string \<Rightarrow> config \<Rightarrow> world \<Rightarrow> (error + unit) \<times> world" where
  "enhance_dashboard repr path cfg w =
     and_then (print (Enhancing path) w) (\<lambda>u w1.
     and_then (load path w1) (\<lambda>data w2.
     and_then (enhance_document repr path cfg data, w2) (\<lambda>data' w3.
     and_then (dump path data' w3) (\<lambda>u w4.
     print (Enhanced path) w4))))"




section \<open>Auxiliary notions for the statements\<close>

text \<open>The replacement of the window \<^verbatim>\<open>[5m]\<close> by the interval variable.\<close>

abbreviation (input) window_subst :: "string \<Rightarrow> string" where
  "window_subst \<equiv> replace ''[5m]'' ''[$interval]''"

text \<open>
  What the filter step takes for the metric name of an expression without braces: the
  text before the first \<^verbatim>\<open>[\<close>, after its last \<^verbatim>\<open>(\<close>, stripped.
\<close>

definition metric_name_of :: "string \<Rightarrow> string" where
  "metric_name_of expr = strip (last (split CHR ''('' (hd (split CHR ''['' expr))))"

text \<open>
  A panel lacks a description when the key is missing or its value is false in Python's
  sense; the description it then receives is computed from the panel's id and title.
\<close>

definition lacks_description :: "(string \<times> json) list \<Rightarrow> bool" where
  "lacks_description panel =
     (case map_of panel ''description'' of None \<Rightarrow> True | Some d \<Rightarrow> \<not> truthy d)"

definition default_description :: "(json \<Rightarrow> string) \<Rightarrow> (string \<times> json) list \<Rightarrow> json" where
  "default_description repr panel =
     JStr (''Panel '' @ format repr (case map_of panel ''id'' of Some v \<Rightarrow> v | None \<Rightarrow> JStr [])
           @ '': '' @ format repr (case map_of panel ''title'' of Some v \<Rightarrow> v | None \<Rightarrow> JStr ''No title''))"

text \<open>
  The objects the routine reads with a default, and the three settings it assigns to
  the dashboard before it walks the panels.
\<close>

definition with_settings :: "config \<Rightarrow> (string \<times> json) list \<Rightarrow> (string \<times> json) list" where
  "with_settings cfg dashboard =
     AList.update ''annotations'' (create_annotations (alert_filter cfg))
       (AList.update ''links'' (create_links (drill_down_links cfg))
         (AList.update ''templating''
            (JDict [(''list'', JList (get_common_variables @ specific_variables cfg))]) dashboard))"

definition panels_of :: "(string \<times> json) list \<Rightarrow> json" where
  "panels_of dashboard = (case map_of dashboard ''panels'' of Some v \<Rightarrow> v | None \<Rightarrow> JList [])"

definition dashboard_of :: "(string \<times> json) list \<Rightarrow> json" where
  "dashboard_of doc = (case map_of doc ''dashboard'' of Some v \<Rightarrow> v | None \<Rightarrow> JDict [])"

text \<open>
  The documents on which the routine raises no exception: \<open>target_ok\<close>, \<open>panel_ok\<close>
  and \<open>document_ok\<close> say when the loop bodies and the whole routine return.
\<close>

fun target_ok :: "json \<Rightarrow> bool" where
  "target_ok (JDict kvs) =
     (case map_of kvs ''expr'' of None \<Rightarrow> True | Some (JStr e) \<Rightarrow> True | Some _ \<Rightarrow> False)"
| "target_ok (JList xs) = (JStr ''expr'' \<notin> set xs)"
| "target_ok (JStr s) = (\<not> str_in ''expr'' s)"
| "target_ok JNull = False"
| "target_ok (JBool b) = False"
| "target_ok (JInt i) = False"
| "target_ok (JFloat r) = False"

definition loop_ok :: "(json \<Rightarrow> bool) \<Rightarrow> json \<Rightarrow> bool" where
  "loop_ok body_ok x = (case iter x of Inl e \<Rightarrow> False | Inr items \<Rightarrow> list_all body_ok items)"

fun panel_ok :: "json \<Rightarrow> bool" where
  "panel_ok (JDict kvs) =
     (case map_of kvs ''targets'' of None \<Rightarrow> True | Some ts \<Rightarrow> loop_ok target_ok ts)"
| "panel_ok JNull = False"
| "panel_ok (JBool b) = False"
| "panel_ok (JInt i) = False"
| "panel_ok (JFloat r) = False"
| "panel_ok (JStr s) = False"
| "panel_ok (JList xs) = False"

definition document_ok :: "json \<Rightarrow> bool" where
  "document_ok data =
     (case data of
        JDict doc \<Rightarrow>
          (case dashboard_of doc of
             JDict dash \<Rightarrow> loop_ok panel_ok (panels_of dash)
           | _ \<Rightarrow> False)
      | _ \<Rightarrow> False)"

text \<open>
  What a run may change. \<open>unchanged_except ks a b\<close>: the dicts \<open>a\<close> and \<open>b\<close> hold
  the same value, or both none, under every key outside \<open>ks\<close>. The frames below
  relate an object before the run to the object after it, level by level: document,
  dashboard, panels, panel, targets, target.
\<close>

definition unchanged_except :: "string set \<Rightarrow> (string \<times> json) list \<Rightarrow> (string \<times> json) list \<Rightarrow> bool" where
  "unchanged_except ks a b = (\<forall>k. k \<notin> ks \<longrightarrow> map_of b k = map_of a k)"

fun target_frame :: "json \<Rightarrow> json \<Rightarrow> bool" where
  "target_frame (JDict a) (JDict b) = unchanged_except {''expr'', ''refId''} a b"
| "target_frame t t' = (t' = t)"

fun targets_frame :: "json \<Rightarrow> json \<Rightarrow> bool" where
  "targets_frame (JList ts) (JList ts') = list_all2 target_frame ts ts'"
| "targets_frame x x' = (x' = x)"

definition panel_frame :: "json \<Rightarrow> json \<Rightarrow> bool" where
  "panel_frame p p' =
     (\<exists>a b. p = JDict a \<and> p' = JDict b \<and>
        unchanged_except {''targets'', ''description''} a b \<and>
        rel_option targets_frame (map_of a ''targets'') (map_of b ''targets''))"

fun panels_frame :: "json \<Rightarrow> json \<Rightarrow> bool" where
  "panels_frame (JList ps) (JList ps') = list_all2 panel_frame ps ps'"
| "panels_frame x x' = (x' = x)"

definition dashboard_frame :: "json \<Rightarrow> json \<Rightarrow> bool" where
  "dashboard_frame d d' =
     (\<exists>a b. d = JDict a \<and> d' = JDict b \<and>
        unchanged_except {''templating'', ''links'', ''annotations'', ''panels''} a b \<and>
        rel_option panels_frame (map_of a ''panels'') (map_of b ''panels''))"

definition document_frame :: "json \<Rightarrow> json \<Rightarrow> bool" where
  "document_frame data data' =
     (\<exists>a b d'. data = JDict a \<and> data' = JDict b \<and>
        unchanged_except {''dashboard''} a b \<and>
        map_of b ''dashboard'' = Some d' \<and> dashboard_frame (dashboard_of a) d')"

text \<open>
  What the panel update establishes. For a target: a target with an \<^verbatim>\<open>expr\<close> key has
  a \<^verbatim>\<open>refId\<close> key afterwards, which is \<^verbatim>\<open>A\<close> when there was none and the old one
  otherwise. For a panel: the description afterwards is true in Python's sense (for a
  string: not empty); a panel that lacked one has the text built from its id and
  title, any other panel keeps its own.
\<close>

fun has_key :: "string \<Rightarrow> json \<Rightarrow> bool" where
  "has_key k (JDict kvs) = (map_of kvs k \<noteq> None)"
| "has_key k x = False"

definition target_post :: "json \<Rightarrow> json \<Rightarrow> bool" where
  "target_post t t' =
     ((has_key ''expr'' t' \<longrightarrow> has_key ''refId'' t') \<and>
      (has_key ''expr'' t \<and> \<not> has_key ''refId'' t \<longrightarrow> getitem t' ''refId'' = Inr (JStr ''A'')) \<and>
      (has_key ''refId'' t \<longrightarrow> getitem t' ''refId'' = getitem t ''refId''))"

fun targets_post :: "json \<Rightarrow> json \<Rightarrow> bool" where
  "targets_post (JList ts) (JList ts') = list_all2 target_post ts ts'"
| "targets_post x x' = (x' = x)"

definition panel_post :: "(json \<Rightarrow> string) \<Rightarrow> json \<Rightarrow> json \<Rightarrow> bool" where
  "panel_post repr p p' =
     (\<exists>a b. p = JDict a \<and> p' = JDict b \<and>
        (\<exists>d. map_of b ''description'' = Some d \<and> truthy d) \<and>
        (lacks_description a \<longrightarrow>
           map_of b ''description'' =
             Some (JStr (''Panel ''
                    @ format repr (case map_of a ''id'' of Some v \<Rightarrow> v | None \<Rightarrow> JStr [])
                    @ '': ''
                    @ format repr (case map_of a ''title'' of Some v \<Rightarrow> v | None \<Rightarrow> JStr ''No title'')))) \<and>
        (\<not> lacks_description a \<longrightarrow> map_of b ''description'' = map_of a ''description'') \<and>
        rel_option targets_post (map_of a ''targets'') (map_of b ''targets''))"

fun panels_post :: "(json \<Rightarrow> string) \<Rightarrow> json \<Rightarrow> json \<Rightarrow> bool" where
  "panels_post repr (JList ps) (JList ps') = list_all2 (panel_post repr) ps ps'"
| "panels_post repr x x' = (x' = x \<and> iter x = Inr [])"






text \<open>Reading a value along a path of keys, as \<^verbatim>\<open>x["a"]["b"]\<close> does.\<close>

fun at_path :: "string list \<Rightarrow> json \<Rightarrow> error + json" where
  "at_path [] x = Inr x"
| "at_path (k # ks) x = bind (getitem x k) (at_path ks)"

text \<open>
  A sample document for the file \<^verbatim>\<open>database.json\<close>, and what the routine makes of it.
  The sample needs no \<^verbatim>\<open>repr\<close> of a list or dict, so any function will do for it.
\<close>

definition no_repr :: "json \<Rightarrow> string" where
  "no_repr v = []"

definition sample_panel :: json where
  \<open>sample_panel = JDict [
     (''id'', JInt 7),
     (''title'', JStr ''Query rate''),
     (''targets'', JList [
        JDict [(''expr'', JStr ''rate(birthday_scheduler_database_queries_total[5m])'')],
        JDict [(''expr'', JStr ''up{job=~"db"}''), (''refId'', JStr ''B''), (''hide'', JBool True)]]),
     (''type'', JStr ''graph'')]\<close>

definition sample_document :: json where
  "sample_document = JDict [
     (''dashboard'', JDict [
        (''title'', JStr ''Database''),
        (''templating'', JDict [(''list'', JList [JDict [(''name'', JStr ''job'')]])]),
        (''panels'', JList [sample_panel])]),
     (''overwrite'', JBool True)]"

definition sample_panel_enhanced :: json where
  \<open>sample_panel_enhanced = JDict [
     (''id'', JInt 7),
     (''title'', JStr ''Query rate''),
     (''targets'', JList [
        JDict [(''expr'', JStr ''rate(birthday_scheduler_database_queries_total{namespace="$namespace", instance=~"$instance"}[$interval])''),
               (''refId'', JStr ''A'')],
        JDict [(''expr'', JStr ''up{job=~"db"}''), (''refId'', JStr ''B''), (''hide'', JBool True)]]),
     (''type'', JStr ''graph''),
     (''description'', JStr ''Panel 7: Query rate'')]\<close>

definition sample_document_enhanced :: json where
  "sample_document_enhanced = JDict [
     (''dashboard'', JDict [
        (''title'', JStr ''Database''),
        (''templating'', JDict [(''list'', JList (get_common_variables @ specific_variables database_config))]),
        (''panels'', JList [sample_panel_enhanced]),
        (''links'', create_links (drill_down_links database_config)),
        (''annotations'', create_annotations (alert_filter database_config))]),
     (''overwrite'', JBool True)]"

definition sample_annotation :: json where
  \<open>sample_annotation = JDict [
     (''datasource'', JStr ''${datasource}''),
     (''enable'', JBool True),
     (''expr'', JStr ''ALERTS{alertname=~"DBConnectionPoolExhausted|DatabaseDown|DBConnectionPoolHigh|SlowQueries|DatabaseQueryLatency", namespace="$namespace"}''),
     (''iconColor'', JStr ''rgba(255, 96, 96, 1)''),
     (''name'', JStr ''Alerts''),
     (''step'', JStr ''60s''),
     (''tagKeys'', JStr ''alertname,severity''),
     (''textFormat'', JStr ''{{alertname}}: {{severity}}''),
     (''titleFormat'', JStr ''Alert'')]\<close>

text \<open>
  A sample directory. Of the five configured files one is missing, one is a good
  dashboard, one is not JSON, one is a document whose write fails on a full disk after
  the file was truncated, and one is JSON but a list. \<open>sample_world\<close> prints to an
  output that takes every line; \<open>sample_world_ascii\<close> is the same directory with an
  output that cannot encode the two marks.
\<close>

definition sample_writes :: "string \<Rightarrow> json \<Rightarrow> write_outcome" where
  "sample_writes path data =
     (if path = ''overview-dashboard.json'' then Dump_raises OSError (Unloadable JSONDecodeError)
      else Written)"

definition utf8_stdout :: "message \<Rightarrow> error option" where
  "utf8_stdout m = None"


definition sample_world :: world where
  "sample_world = \<lparr>dir_exists = True,
     files = [''database.json'' \<mapsto> Doc sample_document,
              ''infrastructure.json'' \<mapsto> Unloadable JSONDecodeError,
              ''overview-dashboard.json'' \<mapsto> Doc (JDict []),
              ''security.json'' \<mapsto> Doc (JList [])],
     out = [],
     print_error = utf8_stdout,
     write_outcome_of = sample_writes\<rparr>"


section \<open>Facts about the string operations\<close>

lemma str_in_iff: "str_in sub s \<longleftrightarrow> (\<exists>a b. s = a @ sub @ b)"
proof (induction s)
  case Nil
  then show ?case by auto
next
  case (Cons c s)
  show ?case
  proof
    assume "str_in sub (c # s)"
    then consider "prefix sub (c # s)" | "str_in sub s" by auto
    then show "\<exists>a b. c # s = a @ sub @ b"
    proof cases
      case 1
      then obtain b where "c # s = sub @ b" by (auto simp: prefix_def)
      then have "c # s = [] @ sub @ b" by simp
      then show ?thesis by blast
    next
      case 2
      with Cons.IH obtain a b where "s = a @ sub @ b" by blast
      then have "c # s = (c # a) @ sub @ b" by simp
      then show ?thesis by blast
    qed
  next
    assume "\<exists>a b. c # s = a @ sub @ b"
    then obtain a b where ab: "c # s = a @ sub @ b" by blast
    show "str_in sub (c # s)"
    proof (cases a)
      case Nil
      with ab have "prefix sub (c # s)" by (simp add: prefix_def)
      then show ?thesis by simp
    next
      case (Cons x a')
      with ab have "s = a' @ sub @ b" by simp
      with Cons.IH have "str_in sub s" by blast
      then show ?thesis by simp
    qed
  qed
qed

lemma str_in_char: "str_in [c] s \<longleftrightarrow> c \<in> set s"
  by (induction s) auto

lemma replace_count_same_aux: "new = old \<Longrightarrow> replace_count old new n s = s"
  by (induction old new n s rule: replace_count.induct) (auto simp: prefix_def)

lemma replace_count_same: "replace_count old old n s = s"
  by (rule replace_count_same_aux) simp

lemma replace_count_char_absent: "c \<notin> set s \<Longrightarrow> replace_count [c] new n s = s"
  by (induction "[c]" new n s rule: replace_count.induct) auto

lemma replace_count_char_first:
  "replace_count [c] new (Suc 0) (a @ c # b) = (if c \<in> set a then replace_count [c] new (Suc 0) a @ c # b else a @ new @ b)"
  by (induction a) auto

lemma split_not_Nil: "split sep s \<noteq> []"
  by (induction s) (auto split: list.splits)

lemma hd_split: "hd (split sep s) = takeWhile (\<lambda>c. c \<noteq> sep) s"
  by (induction s) (auto split: list.splits simp: split_not_Nil)

lemma split_single: "split sep s = [p] \<Longrightarrow> p = s"
  by (induction s arbitrary: p) (auto split: list.splits if_splits simp: split_not_Nil)

lemma last_split_suffix: "suffix (last (split sep s)) s"
  by (induction s) (auto split: list.splits simp: split_not_Nil suffix_Cons dest: split_single)

lemma window_subst_induct [case_names Nil Hit Miss]:
  assumes "P []"
    and "\<And>s. P s \<Longrightarrow> P (''[5m]'' @ s)"
    and "\<And>c s. \<not> prefix ''[5m]'' (c # s) \<Longrightarrow> P s \<Longrightarrow> P (c # s)"
  shows "P x"
proof (induction x rule: length_induct)
  case (1 xs)
  show ?case
  proof (cases xs)
    case Nil
    then show ?thesis using assms(1) by simp
  next
    case (Cons c s)
    show ?thesis
    proof (cases "prefix ''[5m]'' xs")
      case True
      then obtain t where t: "xs = ''[5m]'' @ t" by (auto simp: prefix_def)
      then have "length t < length xs" by simp
      with 1 have "P t" by blast
      with assms(2) t show ?thesis by blast
    next
      case False
      have "length s < length xs" using Cons by simp
      with 1 have "P s" by blast
      with assms(3) False Cons show ?thesis by blast
    qed
  qed
qed

lemma window_subst_hit: "window_subst (''[5m]'' @ s) = ''[$interval]'' @ window_subst s"
  by simp

lemma window_subst_miss: "\<not> prefix ''[5m]'' (c # s) \<Longrightarrow> window_subst (c # s) = c # window_subst s"
  by auto

lemma window_subst_prefix:
  "CHR ''['' \<notin> set p \<Longrightarrow> prefix p (window_subst x) \<longleftrightarrow> prefix p x"
proof (induction x arbitrary: p rule: window_subst_induct)
  case Nil
  then show ?case by simp
next
  case (Hit s)
  then show ?case by (cases p) auto
next
  case (Miss c s)
  then show ?case by (cases p) (auto simp del: replace.simps simp: window_subst_miss)
qed

lemma window_subst_idem: "window_subst (window_subst x) = window_subst x"
proof (induction x rule: window_subst_induct)
  case Nil
  then show ?case by simp
next
  case (Hit s)
  then show ?case by simp
next
  case (Miss c s)
  have "\<not> prefix ''[5m]'' (c # window_subst s)"
  proof
    assume "prefix ''[5m]'' (c # window_subst s)"
    then have c: "c = CHR ''[''" and "prefix ''5m]'' (window_subst s)" by auto
    then have "prefix ''5m]'' s" by (subst (asm) window_subst_prefix) auto
    with c Miss(1) show False by simp
  qed
  then have "window_subst (c # window_subst s) = c # window_subst (window_subst s)"
    by (rule window_subst_miss)
  with Miss show ?case by (simp del: replace.simps add: window_subst_miss)
qed

lemma window_subst_absent: "\<not> str_in ''[5m]'' x \<Longrightarrow> window_subst x = x"
proof (induction x rule: window_subst_induct)
  case Nil
  then show ?case by simp
next
  case (Hit s)
  then show ?case by simp
next
  case (Miss c s)
  then show ?case by (simp del: replace.simps add: window_subst_miss)
qed

lemma window_subst_clean: "\<not> str_in ''[5m]'' (window_subst x)"
proof (induction x rule: window_subst_induct)
  case Nil
  then show ?case by simp
next
  case (Hit s)
  then show ?case by simp
next
  case (Miss c s)
  have "\<not> prefix ''[5m]'' (c # window_subst s)"
  proof
    assume "prefix ''[5m]'' (c # window_subst s)"
    then have c: "c = CHR ''[''" and "prefix ''5m]'' (window_subst s)" by auto
    then have "prefix ''5m]'' s" by (subst (asm) window_subst_prefix) auto
    with c Miss(1) show False by simp
  qed
  with Miss show ?case by (simp del: replace.simps add: window_subst_miss)
qed

text \<open>No occurrence of the window spans the position before an opening bracket.\<close>

lemma window_subst_append:
  "window_subst (a @ CHR ''['' # s) = window_subst a @ window_subst (CHR ''['' # s)"
proof (induction a rule: window_subst_induct)
  case Nil
  then show ?case by simp
next
  case (Hit t)
  then show ?case by simp
next
  case (Miss c t)
  have "\<not> prefix ''[5m]'' (c # t @ CHR ''['' # s)"
  proof
    assume p: "prefix ''[5m]'' (c # t @ CHR ''['' # s)"
    then have c: "c = CHR ''[''" and p1: "prefix ''5m]'' (t @ CHR ''['' # s)" by auto
    from Miss(1) c have np: "\<not> prefix ''5m]'' t" by simp
    from p1 np show False
      by (cases t; cases "tl t"; cases "tl (tl t)") auto
  qed
  then have "window_subst ((c # t) @ CHR ''['' # s) = c # window_subst (t @ CHR ''['' # s)"
    by (simp del: replace.simps add: window_subst_miss)
  with Miss show ?case by (simp del: replace.simps add: window_subst_miss)
qed

lemma window_subst_plain: "CHR ''['' \<notin> set w \<Longrightarrow> window_subst (w @ s) = w @ window_subst s"
  by (induction w) auto

lemma window_subst_5m: "window_subst (a @ ''[5m]'' @ b) = window_subst a @ ''[$interval]'' @ window_subst b"
  using window_subst_append [of a "''5m]'' @ b"] by simp

lemma window_subst_other:
  assumes "CHR ''['' \<notin> set w" "CHR '']'' \<notin> set w" "w \<noteq> ''5m''"
  shows "window_subst (a @ ''['' @ w @ '']'' @ b) = window_subst a @ ''['' @ w @ '']'' @ window_subst b"
proof -
  have np: "\<not> prefix ''[5m]'' (CHR ''['' # w @ '']'' @ b)"
    using assms by (cases w; cases "tl w"; cases "tl (tl w)") auto
  have "window_subst (a @ ''['' @ w @ '']'' @ b) = window_subst a @ window_subst (CHR ''['' # w @ '']'' @ b)"
    using window_subst_append [of a "w @ '']'' @ b"] by simp
  also have "window_subst (CHR ''['' # w @ '']'' @ b) = CHR ''['' # window_subst (w @ '']'' @ b)"
    using np by (rule window_subst_miss)
  also have "window_subst (w @ '']'' @ b) = w @ window_subst ('']'' @ b)"
    using assms(1) by (rule window_subst_plain)
  also have "window_subst ('']'' @ b) = '']'' @ window_subst b" by simp
  finally show ?thesis by simp
qed

lemma str_in_append_left: "str_in p s \<Longrightarrow> str_in p (a @ s)"
  by (induction a) auto

lemma str_in_trans: "str_in p q \<Longrightarrow> str_in q s \<Longrightarrow> str_in p s"
proof -
  assume "str_in p q" "str_in q s"
  then obtain a b c d where "q = a @ p @ b" "s = c @ q @ d" by (auto simp: str_in_iff)
  then have "s = (c @ a) @ p @ (b @ d)" by simp
  then show ?thesis unfolding str_in_iff by blast
qed

lemma namespace_kept:
  "str_in ''namespace='' x \<Longrightarrow> str_in ''namespace='' (window_subst x)"
proof (induction x rule: window_subst_induct)
  case Nil
  then show ?case by simp
next
  case (Hit s)
  then have "str_in ''namespace='' s" by simp
  with Hit have "str_in ''namespace='' (window_subst s)" by blast
  then have "str_in ''namespace='' (''[$interval]'' @ window_subst s)"
    by (rule str_in_append_left)
  then show ?case by (simp only: window_subst_hit)
next
  case (Miss c s)
  from Miss(3) consider "prefix ''namespace='' (c # s)" | "str_in ''namespace='' s" by auto
  then show ?case
  proof cases
    case 1
    then have "prefix ''namespace='' (window_subst (c # s))"
      by (subst window_subst_prefix) auto
    then show ?thesis by (cases "window_subst (c # s)") auto
  next
    case 2
    with Miss have "str_in ''namespace='' (window_subst s)" by blast
    then show ?thesis using Miss(1) by (simp del: replace.simps add: window_subst_miss)
  qed
qed

lemma scheduler_not_created:
  "str_in ''birthday_scheduler_'' (window_subst x) \<Longrightarrow> str_in ''birthday_scheduler_'' x"
proof (induction x rule: window_subst_induct)
  case Nil
  then show ?case by simp
next
  case (Hit s)
  from Hit(2) have "str_in ''birthday_scheduler_'' (window_subst s)" by simp
  with Hit have "str_in ''birthday_scheduler_'' s" by blast
  then show ?case by (rule str_in_append_left)
next
  case (Miss c s)
  from Miss(3) Miss(1) have "str_in ''birthday_scheduler_'' (c # window_subst s)"
    by (simp del: replace.simps add: window_subst_miss)
  then consider "prefix ''birthday_scheduler_'' (c # window_subst s)"
    | "str_in ''birthday_scheduler_'' (window_subst s)" by auto
  then show ?case
  proof cases
    case 1
    then have "prefix ''birthday_scheduler_'' (window_subst (c # s))"
      using Miss(1) by (simp del: replace.simps add: window_subst_miss)
    then have "prefix ''birthday_scheduler_'' (c # s)"
      by (subst (asm) window_subst_prefix) auto
    then show ?thesis by simp
  next
    case 2
    with Miss have "str_in ''birthday_scheduler_'' s" by blast
    then show ?thesis by simp
  qed
qed

lemma replace_contains_new: "str_in old s \<Longrightarrow> str_in new (replace old new s)"
proof (induction old new s rule: replace.induct)
  case (1 old new)
  then show ?case by (cases new) auto
next
  case (2 old new c s)
  show ?case
  proof (cases "old = []")
    case True
    then have "replace old new (c # s) = new @ c # replace old new s" by simp
    moreover have "str_in new (new @ c # replace old new s)"
      unfolding str_in_iff by (metis append_Nil)
    ultimately show ?thesis by simp
  next
    case False
    show ?thesis
    proof (cases "prefix old (c # s)")
      case True
      with False have "replace old new (c # s) = new @ replace old new (drop (length old) (c # s))"
        by simp
      moreover have "str_in new (new @ replace old new (drop (length old) (c # s)))"
        unfolding str_in_iff by (metis append_Nil)
      ultimately show ?thesis by simp
    next
      case np: False
      with False have r: "replace old new (c # s) = c # replace old new s" by simp
      from 2(4) np have "str_in old s" by simp
      with 2(3) False np have "str_in new (replace old new s)" by blast
      with r show ?thesis by simp
    qed
  qed
qed

lemma strip_sub: "str_in (strip s) s"
proof -
  let ?t = "dropWhile isspace s"
  have "s = takeWhile isspace s @ ?t" by simp
  moreover have "rev ?t = takeWhile isspace (rev ?t) @ dropWhile isspace (rev ?t)" by simp
  then have "?t = strip s @ rev (takeWhile isspace (rev ?t))"
    unfolding strip_def by (metis rev_append rev_rev_ident)
  ultimately have "s = takeWhile isspace s @ strip s @ rev (takeWhile isspace (rev ?t))"
    by metis
  then show ?thesis unfolding str_in_iff by blast
qed

lemma suffix_str_in: "suffix p s \<Longrightarrow> str_in p s"
  unfolding str_in_iff suffix_def by (metis append_Nil2)

lemma prefix_str_in: "prefix p s \<Longrightarrow> str_in p s"
  unfolding str_in_iff prefix_def by (metis append_Nil)

lemma metric_name_sub: "str_in (metric_name_of expr) expr"
proof -
  have "str_in (hd (split CHR ''['' expr)) expr"
    by (simp add: hd_split prefix_str_in takeWhile_is_prefix)
  moreover have "str_in (last (split CHR ''('' (hd (split CHR ''['' expr)))) (hd (split CHR ''['' expr))"
    by (rule suffix_str_in) (rule last_split_suffix)
  ultimately show ?thesis
    unfolding metric_name_of_def using strip_sub str_in_trans by blast
qed

lemma add_namespace_filter_skip:
  "str_in ''namespace='' expr \<or> \<not> str_in ''birthday_scheduler_'' expr \<Longrightarrow> add_namespace_filter expr = expr"
  by (auto simp: add_namespace_filter_def)

lemma add_namespace_filter_brace:
  assumes "\<not> str_in ''namespace='' expr" "str_in ''birthday_scheduler_'' expr" "CHR ''{'' \<notin> set a"
    and "expr = a @ ''{'' @ b"
  shows \<open>add_namespace_filter expr = a @ ''{namespace="$namespace", instance=~"$instance", '' @ b\<close>
proof -
  have 1: \<open>replace_count ''{'' ''{namespace="$namespace", instance=~"$instance", '' 1 expr
      = a @ ''{namespace="$namespace", instance=~"$instance", '' @ b\<close>
    using assms(3,4) replace_count_char_first [of "CHR ''{''" _ a b] by simp
  have 2: \<open>str_in ''{'' (a @ ''{namespace="$namespace", instance=~"$instance", '' @ b)\<close>
    by (simp add: str_in_char)
  show ?thesis
    using assms(1,2) 1 2 by (simp add: add_namespace_filter_def replace_count_same Let_def del: replace_count.simps str_in.simps)
qed

lemma add_namespace_filter_bare:
  assumes "\<not> str_in ''namespace='' expr" "str_in ''birthday_scheduler_'' expr" "CHR ''{'' \<notin> set expr"
  shows \<open>add_namespace_filter expr = replace (metric_name_of expr)
     (metric_name_of expr @ ''{namespace="$namespace", instance=~"$instance"}'') expr\<close>
proof -
  have 1: \<open>replace_count ''{'' ''{namespace="$namespace", instance=~"$instance", '' 1 expr = expr\<close>
    using assms(3) by (simp add: replace_count_char_absent del: replace_count.simps)
  have 2: "\<not> str_in ''{'' expr" using assms(3) by (simp add: str_in_char)
  have 3: "split CHR ''['' expr ! 0 = hd (split CHR ''['' expr)"
    by (simp add: hd_conv_nth split_not_Nil)
  show ?thesis
    using assms(1,2) 1 2 3 
    by (simp add: add_namespace_filter_def replace_count_same Let_def metric_name_of_def split_not_Nil
        del: replace_count.simps str_in.simps replace.simps)
qed

lemma add_namespace_filter_has_namespace:
  assumes "\<not> str_in ''namespace='' expr" "str_in ''birthday_scheduler_'' expr"
  shows "str_in ''namespace='' (add_namespace_filter expr)"
proof (cases "CHR ''{'' \<in> set expr")
  case True
  then obtain a b where ab: "expr = a @ CHR ''{'' # b" "CHR ''{'' \<notin> set a"
    by (meson split_list_first)
  then have "expr = a @ ''{'' @ b" by simp
  from add_namespace_filter_brace [OF assms ab(2) this]
  have \<open>add_namespace_filter expr = (a @ ''{'') @ ''namespace='' @ (''"$namespace", instance=~"$instance", '' @ b)\<close>
    by simp
  then show ?thesis unfolding str_in_iff by blast
next
  case False
  let ?m = "metric_name_of expr"
  have \<open>str_in (?m @ ''{namespace="$namespace", instance=~"$instance"}'') (add_namespace_filter expr)\<close>
    unfolding add_namespace_filter_bare [OF assms False]
    by (rule replace_contains_new) (rule metric_name_sub)
  moreover have \<open>?m @ ''{namespace="$namespace", instance=~"$instance"}''
     = (?m @ ''{'') @ ''namespace='' @ ''"$namespace", instance=~"$instance"}''\<close> by simp
  then have \<open>str_in ''namespace='' (?m @ ''{namespace="$namespace", instance=~"$instance"}'')\<close>
    unfolding str_in_iff by blast
  ultimately show ?thesis using str_in_trans by blast
qed

text \<open>Whenever the filter step applies, the result holds the two placeholders.\<close>

lemma add_namespace_filter_injects:
  assumes "\<not> str_in ''namespace='' expr" "str_in ''birthday_scheduler_'' expr"
  shows \<open>str_in ''namespace="$namespace", instance=~"$instance"'' (add_namespace_filter expr)\<close>
proof (cases "CHR ''{'' \<in> set expr")
  case True
  then obtain a b where ab: "expr = a @ CHR ''{'' # b" "CHR ''{'' \<notin> set a"
    by (meson split_list_first)
  then have "expr = a @ ''{'' @ b" by simp
  from add_namespace_filter_brace [OF assms ab(2) this]
  have \<open>add_namespace_filter expr
      = (a @ ''{'') @ ''namespace="$namespace", instance=~"$instance"'' @ ('', '' @ b)\<close>
    by simp
  then show ?thesis unfolding str_in_iff by blast
next
  case False
  let ?m = "metric_name_of expr"
  have \<open>str_in (?m @ ''{namespace="$namespace", instance=~"$instance"}'') (add_namespace_filter expr)\<close>
    unfolding add_namespace_filter_bare [OF assms False]
    by (rule replace_contains_new) (rule metric_name_sub)
  moreover have \<open>?m @ ''{namespace="$namespace", instance=~"$instance"}''
     = (?m @ ''{'') @ ''namespace="$namespace", instance=~"$instance"'' @ ''}''\<close> by simp
  then have \<open>str_in ''namespace="$namespace", instance=~"$instance"''
      (?m @ ''{namespace="$namespace", instance=~"$instance"}'')\<close>
    unfolding str_in_iff by blast
  ultimately show ?thesis using str_in_trans by blast
qed

lemma update_expr_idem: "update_expr (update_expr e) = update_expr e"
proof (cases "\<not> str_in ''namespace='' e \<and> str_in ''birthday_scheduler_'' e")
  case True
  then have "str_in ''namespace='' (add_namespace_filter e)"
    by (simp add: add_namespace_filter_has_namespace)
  then have "str_in ''namespace='' (update_expr e)"
    unfolding update_expr_def by (rule namespace_kept)
  then have "add_namespace_filter (update_expr e) = update_expr e"
    by (simp add: add_namespace_filter_skip)
  then show ?thesis
    by (simp add: update_expr_def window_subst_idem del: replace.simps)
next
  case False
  then have e: "add_namespace_filter e = e" by (auto simp: add_namespace_filter_skip)
  from False have "str_in ''namespace='' (window_subst e) \<or> \<not> str_in ''birthday_scheduler_'' (window_subst e)"
    using namespace_kept scheduler_not_created by blast
  then have "add_namespace_filter (window_subst e) = window_subst e"
    by (rule add_namespace_filter_skip)
  then show ?thesis
    by (simp add: update_expr_def e window_subst_idem del: replace.simps)
qed

text \<open>Where the filter step leaves the expression alone, only the window changes.\<close>

lemma update_expr_skip:
  "str_in ''namespace='' expr \<or> \<not> str_in ''birthday_scheduler_'' expr \<Longrightarrow>
     update_expr expr = window_subst expr"
  by (simp add: update_expr_def add_namespace_filter_skip del: replace.simps)

section \<open>Facts about the loops and the target update\<close>

lemma bind_Inr_iff: "bind m f = Inr y \<longleftrightarrow> (\<exists>x. m = Inr x \<and> f x = Inr y)"
  by (cases m) auto

lemma mapM_Inr_iff: "mapM f xs = Inr ys \<longleftrightarrow> list_all2 (\<lambda>x y. f x = Inr y) xs ys"
proof (induction xs arbitrary: ys)
  case Nil
  then show ?case by auto
next
  case (Cons x xs)
  show ?case
  proof (cases ys)
    case Nil
    then show ?thesis by (cases "f x"; cases "mapM f xs") simp_all
  next
    case (Cons y ys')
    have "mapM f (x # xs) = Inr (y # ys') \<longleftrightarrow> f x = Inr y \<and> mapM f xs = Inr ys'"
      by (cases "f x"; cases "mapM f xs") simp_all
    then show ?thesis using Cons.IH [of ys'] Cons by simp
  qed
qed


lemma mapM_fixed: "\<forall>y \<in> set ys. f y = Inr y \<Longrightarrow> mapM f ys = Inr ys"
  unfolding mapM_Inr_iff list_all2_same by blast

lemma mapM_idem:
  assumes "mapM f xs = Inr ys" and "\<forall>x y. f x = Inr y \<longrightarrow> f y = Inr y"
  shows "mapM f ys = Inr ys"
proof -
  from assms(1) have "list_all2 (\<lambda>x y. f x = Inr y) xs ys" unfolding mapM_Inr_iff .
  have "\<forall>y \<in> set ys. \<exists>x. f x = Inr y"
    using \<open>list_all2 (\<lambda>x y. f x = Inr y) xs ys\<close>
    by (induction rule: list_all2_induct) auto
  then have "\<forall>y \<in> set ys. f y = Inr y" using assms(2) by blast
  then show ?thesis by (rule mapM_fixed)
qed

lemma for_each_JList: "for_each f (JList xs) = bind (mapM f xs) (\<lambda>ys. Inr (JList ys))"
  by (simp add: for_each_def)

lemma for_each_JList_Inr:
  "for_each f (JList xs) = Inr r \<longleftrightarrow> (\<exists>ys. r = JList ys \<and> list_all2 (\<lambda>x y. f x = Inr y) xs ys)"
  unfolding for_each_JList bind_Inr_iff mapM_Inr_iff by auto

lemma for_each_not_list:
  assumes "for_each f x = Inr r" "\<forall>xs. x \<noteq> JList xs"
  shows "r = x"
  using assms by (cases x) (auto simp: for_each_def bind_Inr_iff)

lemma for_each_idem:
  assumes "for_each f x = Inr r" and "\<forall>a b. f a = Inr b \<longrightarrow> f b = Inr b"
  shows "for_each f r = Inr r"
proof (cases "\<exists>xs. x = JList xs")
  case True
  then obtain xs where x: "x = JList xs" by blast
  with assms(1) obtain ys where ys: "r = JList ys" "mapM f xs = Inr ys"
    by (auto simp: for_each_JList bind_Inr_iff)
  have "mapM f ys = Inr ys" using ys(2) assms(2) by (rule mapM_idem)
  then show ?thesis by (simp add: ys for_each_JList)
next
  case False
  with assms(1) have "r = x" using for_each_not_list by blast
  with assms(1) show ?thesis by simp
qed

lemma update_target_JDict:
  "update_target (JDict kvs) =
     (case map_of kvs ''expr'' of
        None \<Rightarrow> Inr (JDict kvs)
      | Some v \<Rightarrow>
          bind (update_expr_value v) (\<lambda>v'.
          Inr (JDict (if map_of kvs ''refId'' = None
                      then AList.update ''refId'' (JStr ''A'') (AList.update ''expr'' v' kvs)
                      else AList.update ''expr'' v' kvs))))"
proof (cases "map_of kvs ''expr''")
  case None
  then show ?thesis by (simp add: update_target_def)
next
  case (Some v)
  show ?thesis
    by (cases "update_expr_value v") (simp_all add: update_target_def Some update_conv')
qed

lemma update_target_JList:
  "update_target (JList xs) = (if JStr ''expr'' \<in> set xs then Inl TypeError else Inr (JList xs))"
  by (simp add: update_target_def)

lemma update_target_JStr:
  "update_target (JStr s) = (if str_in ''expr'' s then Inl TypeError else Inr (JStr s))"
  by (simp add: update_target_def)

lemma update_expr_value_Inr:
  "update_expr_value v = Inr v' \<longleftrightarrow> (\<exists>e. v = JStr e \<and> v' = JStr (update_expr e))"
  by (cases v) auto

lemma update_target_fixed:
  assumes "map_of k ''expr'' = Some (JStr (update_expr e))" "map_of k ''refId'' \<noteq> None"
  shows "update_target (JDict k) = Inr (JDict k)"
proof -
  have "AList.update ''expr'' (JStr (update_expr e)) k = k"
    using assms(1) by (rule update_triv)
  then show ?thesis
    using assms by (simp only: update_target_JDict option.case update_expr_value.simps
        bind.simps update_expr_idem if_False)
qed

lemma update_target_idem:
  assumes "update_target t = Inr t'"
  shows "update_target t' = Inr t'"
proof (cases t)
  case (JDict kvs)
  show ?thesis
  proof (cases "map_of kvs ''expr''")
    case None
    with assms JDict have "t' = JDict kvs" by (simp add: update_target_JDict)
    then show ?thesis using None by (simp add: update_target_JDict)
  next
    case (Some v)
    with assms JDict obtain e where e: "v = JStr e" 
      and t': "t' = JDict (if map_of kvs ''refId'' = None
                      then AList.update ''refId'' (JStr ''A'') (AList.update ''expr'' (JStr (update_expr e)) kvs)
                      else AList.update ''expr'' (JStr (update_expr e)) kvs)"
      by (auto simp: update_target_JDict bind_Inr_iff update_expr_value_Inr)
    let ?k1 = "AList.update ''expr'' (JStr (update_expr e)) kvs"
    show ?thesis
    proof (cases "map_of kvs ''refId'' = None")
      case True
      let ?k2 = "AList.update ''refId'' (JStr ''A'') ?k1"
      have 1: "map_of ?k2 ''expr'' = Some (JStr (update_expr e))" by (simp add: update_conv')
      have 2: "map_of ?k2 ''refId'' \<noteq> None" by (simp add: update_conv')
      have "t' = JDict ?k2" using t' True by simp
      then show ?thesis using update_target_fixed [OF 1 2] by simp
    next
      case False
      have 1: "map_of ?k1 ''expr'' = Some (JStr (update_expr e))" by (simp add: update_conv')
      have 2: "map_of ?k1 ''refId'' \<noteq> None" using False by (simp add: update_conv')
      have "t' = JDict ?k1" using t' False by simp
      then show ?thesis using update_target_fixed [OF 1 2] by simp
    qed
  qed
next
  case (JList xs)
  with assms show ?thesis by (auto simp: update_target_JList split: if_splits)
next
  case (JStr s)
  with assms show ?thesis by (auto simp: update_target_JStr split: if_splits)
next
  case JNull
  with assms show ?thesis by (simp add: update_target_def)
next
  case (JBool b)
  with assms show ?thesis by (simp add: update_target_def)
next
  case (JInt i)
  with assms show ?thesis by (simp add: update_target_def)
next
  case (JFloat r)
  with assms show ?thesis by (simp add: update_target_def)
qed

section \<open>Facts about the panel update and the document\<close>

lemma update_panel_JDict:
  "update_panel repr (JDict kvs) =
     bind (case map_of kvs ''targets'' of
             None \<Rightarrow> Inr kvs
           | Some ts \<Rightarrow> bind (for_each update_target ts) (\<lambda>ts'. Inr (AList.update ''targets'' ts' kvs)))
       (\<lambda>k1. Inr (JDict (if lacks_description kvs
                          then AList.update ''description'' (default_description repr kvs) k1
                          else k1)))"
proof (cases "map_of kvs ''targets''")
  case None
  then show ?thesis
    by (cases "map_of kvs ''description''")
       (simp_all add: update_panel_def lacks_description_def default_description_def)
next
  case (Some ts)
  show ?thesis
  proof (cases "for_each update_target ts")
    case (Inl e)
    then show ?thesis by (simp add: update_panel_def Some)
  next
    case (Inr ts')
    then show ?thesis
      by (cases "map_of kvs ''description''")
         (simp_all add: update_panel_def Some lacks_description_def default_description_def update_conv')
  qed
qed

lemma update_panel_dict:
  assumes "update_panel repr p = Inr p'"
  shows "\<exists>kvs. p = JDict kvs"
proof (cases p)
  case (JDict kvs)
  then show ?thesis by blast
next
  case (JList xs)
  with assms show ?thesis
    by (simp add: update_panel_def split: if_splits)
next
  case (JStr s)
  with assms show ?thesis
    by (simp add: update_panel_def split: if_splits)
next
  case JNull
  with assms show ?thesis by (simp add: update_panel_def)
next
  case (JBool b)
  with assms show ?thesis by (simp add: update_panel_def)
next
  case (JInt i)
  with assms show ?thesis by (simp add: update_panel_def)
next
  case (JFloat r)
  with assms show ?thesis by (simp add: update_panel_def)
qed

lemma update_panel_Inr:
  "update_panel repr p = Inr p' \<longleftrightarrow>
     (\<exists>kvs k1. p = JDict kvs \<and>
        (case map_of kvs ''targets'' of
           None \<Rightarrow> k1 = kvs
         | Some ts \<Rightarrow> \<exists>ts'. for_each update_target ts = Inr ts' \<and> k1 = AList.update ''targets'' ts' kvs) \<and>
        p' = JDict (if lacks_description kvs
                    then AList.update ''description'' (default_description repr kvs) k1
                    else k1))"
proof
  assume a: "update_panel repr p = Inr p'"
  then obtain kvs where p: "p = JDict kvs" using update_panel_dict by blast
  show "\<exists>kvs k1. p = JDict kvs \<and>
        (case map_of kvs ''targets'' of
           None \<Rightarrow> k1 = kvs
         | Some ts \<Rightarrow> \<exists>ts'. for_each update_target ts = Inr ts' \<and> k1 = AList.update ''targets'' ts' kvs) \<and>
        p' = JDict (if lacks_description kvs
                    then AList.update ''description'' (default_description repr kvs) k1
                    else k1)"
    using a unfolding p update_panel_JDict bind_Inr_iff
    by (cases "map_of kvs ''targets''") (auto simp: bind_Inr_iff)
next
  assume "\<exists>kvs k1. p = JDict kvs \<and>
        (case map_of kvs ''targets'' of
           None \<Rightarrow> k1 = kvs
         | Some ts \<Rightarrow> \<exists>ts'. for_each update_target ts = Inr ts' \<and> k1 = AList.update ''targets'' ts' kvs) \<and>
        p' = JDict (if lacks_description kvs
                    then AList.update ''description'' (default_description repr kvs) k1
                    else k1)"
  then obtain kvs k1 where p: "p = JDict kvs"
    and k1: "case map_of kvs ''targets'' of
           None \<Rightarrow> k1 = kvs
         | Some ts \<Rightarrow> \<exists>ts'. for_each update_target ts = Inr ts' \<and> k1 = AList.update ''targets'' ts' kvs"
    and p': "p' = JDict (if lacks_description kvs
                    then AList.update ''description'' (default_description repr kvs) k1
                    else k1)" by blast
  show "update_panel repr p = Inr p'"
    using k1 unfolding p p' update_panel_JDict
    by (cases "map_of kvs ''targets''") auto
qed

lemma default_description_truthy: "truthy (default_description repr kvs)"
  by (simp add: default_description_def)

lemma update_panel_fixed:
  assumes "\<not> lacks_description k"
    and "case map_of k ''targets'' of None \<Rightarrow> True | Some ts \<Rightarrow> for_each update_target ts = Inr ts"
  shows "update_panel repr (JDict k) = Inr (JDict k)"
proof (cases "map_of k ''targets''")
  case None
  then show ?thesis using assms(1) by (simp add: update_panel_JDict)
next
  case (Some ts)
  then have "AList.update ''targets'' ts k = k" by (rule update_triv)
  then show ?thesis using assms Some by (simp add: update_panel_JDict)
qed

lemma update_panel_idem:
  assumes "update_panel repr p = Inr p'"
  shows "update_panel repr p' = Inr p'"
proof -
  from assms obtain kvs k1 where p: "p = JDict kvs"
    and k1: "case map_of kvs ''targets'' of
           None \<Rightarrow> k1 = kvs
         | Some ts \<Rightarrow> \<exists>ts'. for_each update_target ts = Inr ts' \<and> k1 = AList.update ''targets'' ts' kvs"
    and p': "p' = JDict (if lacks_description kvs
                    then AList.update ''description'' (default_description repr kvs) k1
                    else k1)"
    unfolding update_panel_Inr by blast
  let ?k2 = "if lacks_description kvs
             then AList.update ''description'' (default_description repr kvs) k1 else k1"
  have t2: "map_of ?k2 ''targets'' = map_of k1 ''targets''" by (simp add: update_conv')
  have d1: "map_of k1 ''description'' = map_of kvs ''description''"
    using k1 by (cases "map_of kvs ''targets''") (auto simp: update_conv')
  have a: "\<not> lacks_description ?k2"
  proof (cases "lacks_description kvs")
    case True
    then show ?thesis
      by (simp add: lacks_description_def update_conv' default_description_truthy)
  next
    case False
    then show ?thesis using d1 by (simp add: lacks_description_def)
  qed
  have b: "case map_of ?k2 ''targets'' of None \<Rightarrow> True | Some ts \<Rightarrow> for_each update_target ts = Inr ts"
  proof (cases "map_of kvs ''targets''")
    case None
    with k1 have "map_of k1 ''targets'' = None" by simp
    with t2 show ?thesis by simp
  next
    case (Some ts)
    with k1 obtain ts' where ts': "for_each update_target ts = Inr ts'"
      "k1 = AList.update ''targets'' ts' kvs" by auto
    have "\<forall>a b. update_target a = Inr b \<longrightarrow> update_target b = Inr b"
      using update_target_idem by blast
    with ts'(1) have "for_each update_target ts' = Inr ts'" by (rule for_each_idem)
    moreover have "map_of k1 ''targets'' = Some ts'" using ts'(2) by (simp add: update_conv')
    ultimately show ?thesis using t2 by simp
  qed
  from a b have "update_panel repr (JDict ?k2) = Inr (JDict ?k2)" by (rule update_panel_fixed)
  then show ?thesis using p' by simp
qed

lemma update_panel_queries_idem:
  assumes "update_panel_queries repr panels name = Inr panels'"
  shows "update_panel_queries repr panels' name' = Inr panels'"
proof -
  have "\<forall>a b. update_panel repr a = Inr b \<longrightarrow> update_panel repr b = Inr b"
    using update_panel_idem by blast
  with assms show ?thesis unfolding update_panel_queries_def by (rule for_each_idem)
qed

lemma enhance_document_dashboard:
  assumes "dashboard_of doc = JDict dash"
  shows "enhance_document repr name cfg (JDict doc) =
     bind (update_panel_queries repr (panels_of (with_settings cfg dash)) name) (\<lambda>panels'.
       Inr (JDict (AList.update ''dashboard''
                     (store_back (JDict (with_settings cfg dash)) ''panels'' panels') doc)))"
  using assms
  by (simp add: enhance_document_def dashboard_of_def panels_of_def with_settings_def Let_def
      del: store_back.simps AList.update.simps)

lemma enhance_document_not_dict:
  assumes "\<forall>dash. dashboard_of doc \<noteq> JDict dash"
  shows "enhance_document repr name cfg (JDict doc) = Inl TypeError"
  using assms
  by (cases "dashboard_of doc")
     (simp_all add: enhance_document_def dashboard_of_def Let_def del: AList.update.simps)

lemma enhance_document_needs_dict:
  assumes "enhance_document repr name cfg data = Inr data'"
  shows "\<exists>doc. data = JDict doc"
  using assms by (cases data) (simp_all add: enhance_document_def)

lemma enhance_document_Inr:
  "enhance_document repr name cfg data = Inr data' \<longleftrightarrow>
     (\<exists>doc dash panels'. data = JDict doc \<and> dashboard_of doc = JDict dash \<and>
        update_panel_queries repr (panels_of (with_settings cfg dash)) name = Inr panels' \<and>
        data' = JDict (AList.update ''dashboard''
                     (store_back (JDict (with_settings cfg dash)) ''panels'' panels') doc))"
proof
  assume a: "enhance_document repr name cfg data = Inr data'"
  then obtain doc where d: "data = JDict doc" using enhance_document_needs_dict by blast
  have "\<exists>dash. dashboard_of doc = JDict dash"
  proof (rule ccontr)
    assume "\<not> (\<exists>dash. dashboard_of doc = JDict dash)"
    then have "enhance_document repr name cfg (JDict doc) = Inl TypeError"
      using enhance_document_not_dict by blast
    with a d show False by simp
  qed
  then obtain dash where dash: "dashboard_of doc = JDict dash" by blast
  from a show "\<exists>doc dash panels'. data = JDict doc \<and> dashboard_of doc = JDict dash \<and>
        update_panel_queries repr (panels_of (with_settings cfg dash)) name = Inr panels' \<and>
        data' = JDict (AList.update ''dashboard''
                     (store_back (JDict (with_settings cfg dash)) ''panels'' panels') doc)"
    unfolding d enhance_document_dashboard [OF dash] bind_Inr_iff using dash by blast
next
  assume "\<exists>doc dash panels'. data = JDict doc \<and> dashboard_of doc = JDict dash \<and>
        update_panel_queries repr (panels_of (with_settings cfg dash)) name = Inr panels' \<and>
        data' = JDict (AList.update ''dashboard''
                     (store_back (JDict (with_settings cfg dash)) ''panels'' panels') doc)"
  then obtain doc dash panels' where d: "data = JDict doc" and dash: "dashboard_of doc = JDict dash"
    and p: "update_panel_queries repr (panels_of (with_settings cfg dash)) name = Inr panels'"
    and d': "data' = JDict (AList.update ''dashboard''
                     (store_back (JDict (with_settings cfg dash)) ''panels'' panels') doc)"
    by blast
  show "enhance_document repr name cfg data = Inr data'"
    unfolding d d' enhance_document_dashboard [OF dash] using p by simp
qed

lemma with_settings_lookup:
  "map_of (with_settings cfg d) ''templating'' =
     Some (JDict [(''list'', JList (get_common_variables @ specific_variables cfg))])"
  "map_of (with_settings cfg d) ''links'' = Some (create_links (drill_down_links cfg))"
  "map_of (with_settings cfg d) ''annotations'' = Some (create_annotations (alert_filter cfg))"
  by (simp_all add: with_settings_def update_conv')

lemma with_settings_other:
  "k \<noteq> ''templating'' \<Longrightarrow> k \<noteq> ''links'' \<Longrightarrow> k \<noteq> ''annotations'' \<Longrightarrow>
     map_of (with_settings cfg d) k = map_of d k"
  by (simp add: with_settings_def update_conv')

lemma with_settings_fixed:
  assumes "map_of d ''templating'' =
     Some (JDict [(''list'', JList (get_common_variables @ specific_variables cfg))])"
    and "map_of d ''links'' = Some (create_links (drill_down_links cfg))"
    and "map_of d ''annotations'' = Some (create_annotations (alert_filter cfg))"
  shows "with_settings cfg d = d"
proof -
  have 1: "AList.update ''templating''
            (JDict [(''list'', JList (get_common_variables @ specific_variables cfg))]) d = d"
    using assms(1) by (rule update_triv)
  have 2: "AList.update ''links'' (create_links (drill_down_links cfg)) d = d"
    using assms(2) by (rule update_triv)
  have 3: "AList.update ''annotations'' (create_annotations (alert_filter cfg)) d = d"
    using assms(3) by (rule update_triv)
  show ?thesis unfolding with_settings_def 1 2 3 ..
qed

lemma store_back_fixed: "map_of d k = Some v \<Longrightarrow> store_back (JDict d) k v = JDict d"
  by (simp add: update_triv del: AList.update.simps)

lemma store_back_absent: "map_of d k = None \<Longrightarrow> store_back (JDict d) k v = JDict d"
  by simp

lemma store_back_JDict:
  "store_back (JDict d) k v = JDict (if map_of d k \<noteq> None then AList.update k v d else d)"
  by simp

lemma enhance_document_fixed:
  assumes "map_of doc ''dashboard'' = Some (JDict d)"
    and "with_settings cfg d = d"
    and "update_panel_queries repr (panels_of d) name = Inr (panels_of d)"
  shows "enhance_document repr name cfg (JDict doc) = Inr (JDict doc)"
proof -
  have dash: "dashboard_of doc = JDict d" using assms(1) by (simp add: dashboard_of_def)
  have sb: "store_back (JDict d) ''panels'' (panels_of d) = JDict d"
    by (cases "map_of d ''panels''")
       (simp_all add: panels_of_def update_triv del: AList.update.simps)
  have "AList.update ''dashboard'' (JDict d) doc = doc" using assms(1) by (rule update_triv)
  then show ?thesis
    unfolding enhance_document_dashboard [OF dash] assms(2) assms(3) bind.simps sb by simp
qed

lemma enhance_document_idem:
  assumes "enhance_document repr name cfg data = Inr data'"
  shows "enhance_document repr name cfg data' = Inr data'"
proof -
  from assms obtain doc dash panels' where d: "data = JDict doc"
    and dash: "dashboard_of doc = JDict dash"
    and p: "update_panel_queries repr (panels_of (with_settings cfg dash)) name = Inr panels'"
    and d': "data' = JDict (AList.update ''dashboard''
                     (store_back (JDict (with_settings cfg dash)) ''panels'' panels') doc)"
    unfolding enhance_document_Inr by blast
  let ?ws = "with_settings cfg dash"
  let ?d2 = "if map_of ?ws ''panels'' \<noteq> None then AList.update ''panels'' panels' ?ws else ?ws"
  let ?doc2 = "AList.update ''dashboard'' (JDict ?d2) doc"
  have d'2: "data' = JDict ?doc2" unfolding d' store_back_JDict ..
  have 1: "map_of ?doc2 ''dashboard'' = Some (JDict ?d2)" by (simp add: update_conv')
  have 2: "with_settings cfg ?d2 = ?d2"
    by (rule with_settings_fixed) (simp_all add: update_conv' with_settings_lookup)
  have p2: "update_panel_queries repr panels' name = Inr panels'"
    using p by (rule update_panel_queries_idem)
  have 3: "update_panel_queries repr (panels_of ?d2) name = Inr (panels_of ?d2)"
  proof (cases "map_of ?ws ''panels''")
    case None
    then have "panels_of ?ws = JList []" by (simp add: panels_of_def)
    then show ?thesis using None
      by (simp add: update_panel_queries_def for_each_def)
  next
    case (Some v)
    then have "panels_of ?d2 = panels'" by (simp add: panels_of_def update_conv')
    then show ?thesis using p2 by simp
  qed
  from 1 2 3 have "enhance_document repr name cfg (JDict ?doc2) = Inr (JDict ?doc2)"
    by (rule enhance_document_fixed)
  then show ?thesis unfolding d'2 .
qed

section \<open>When the routine returns\<close>

lemma update_target_ok: "(\<exists>t'. update_target t = Inr t') \<longleftrightarrow> target_ok t"
proof (cases t)
  case (JDict kvs)
  show ?thesis
  proof (cases "map_of kvs ''expr''")
    case None
    then show ?thesis unfolding JDict by (simp add: update_target_JDict)
  next
    case (Some v)
    then show ?thesis unfolding JDict
      by (cases v) (simp_all add: update_target_JDict)
  qed
next
  case (JList xs)
  then show ?thesis by (simp add: update_target_JList)
next
  case (JStr s)
  then show ?thesis by (simp add: update_target_JStr)
next
  case JNull
  then show ?thesis by (simp add: update_target_def)
next
  case (JBool b)
  then show ?thesis by (simp add: update_target_def)
next
  case (JInt i)
  then show ?thesis by (simp add: update_target_def)
next
  case (JFloat r)
  then show ?thesis by (simp add: update_target_def)
qed

lemma mapM_ok: "(\<exists>ys. mapM f xs = Inr ys) \<longleftrightarrow> list_all (\<lambda>x. \<exists>y. f x = Inr y) xs"
proof (induction xs)
  case Nil
  then show ?case by simp
next
  case (Cons x xs)
  have "(\<exists>ys. mapM f (x # xs) = Inr ys) \<longleftrightarrow> (\<exists>y. f x = Inr y) \<and> (\<exists>ys. mapM f xs = Inr ys)"
    by (cases "f x"; cases "mapM f xs") simp_all
  then show ?case using Cons.IH by simp
qed

lemma for_each_ok:
  assumes "\<forall>i. (\<exists>y. f i = Inr y) \<longleftrightarrow> ok i"
  shows "(\<exists>r. for_each f x = Inr r) \<longleftrightarrow> loop_ok ok x"
proof (cases "iter x")
  case (Inl e)
  then show ?thesis by (simp add: for_each_def loop_ok_def)
next
  case (Inr items)
  have "(\<exists>r. for_each f x = Inr r) \<longleftrightarrow> (\<exists>ys. mapM f items = Inr ys)"
    unfolding for_each_def Inr by (cases "mapM f items") simp_all
  also have "\<dots> \<longleftrightarrow> list_all ok items" unfolding mapM_ok using assms by simp
  finally show ?thesis by (simp add: loop_ok_def Inr)
qed

lemma update_panel_ok: "(\<exists>p'. update_panel repr p = Inr p') \<longleftrightarrow> panel_ok p"
proof (cases "\<exists>kvs. p = JDict kvs")
  case True
  then obtain kvs where p: "p = JDict kvs" by blast
  show ?thesis
  proof (cases "map_of kvs ''targets''")
    case None
    then show ?thesis unfolding p by (simp add: update_panel_JDict)
  next
    case (Some ts)
    have "(\<exists>r. for_each update_target ts = Inr r) \<longleftrightarrow> loop_ok target_ok ts"
      by (rule for_each_ok) (simp add: update_target_ok)
    moreover have "(\<exists>p'. update_panel repr (JDict kvs) = Inr p') \<longleftrightarrow>
        (\<exists>r. for_each update_target ts = Inr r)"
      unfolding update_panel_JDict Some by (cases "for_each update_target ts") simp_all
    ultimately show ?thesis unfolding p using Some by simp
  qed
next
  case False
  then have "\<not> (\<exists>p'. update_panel repr p = Inr p')" using update_panel_dict by blast
  moreover have "\<not> panel_ok p" using False by (cases p) simp_all
  ultimately show ?thesis by blast
qed

lemma panels_of_with_settings: "panels_of (with_settings cfg dash) = panels_of dash"
  by (simp add: panels_of_def with_settings_other)

lemma enhance_document_ok:
  "(\<exists>data'. enhance_document repr name cfg data = Inr data') \<longleftrightarrow> document_ok data"
proof -
  have ok: "\<And>ps. (\<exists>r. update_panel_queries repr ps name = Inr r) \<longleftrightarrow> loop_ok panel_ok ps"
    unfolding update_panel_queries_def by (rule for_each_ok) (simp add: update_panel_ok)
  show ?thesis
  proof
    assume "\<exists>data'. enhance_document repr name cfg data = Inr data'"
    then obtain doc dash panels' where "data = JDict doc" "dashboard_of doc = JDict dash"
      "update_panel_queries repr (panels_of (with_settings cfg dash)) name = Inr panels'"
      unfolding enhance_document_Inr by blast
    then show "document_ok data"
      using ok [of "panels_of dash"]
      by (auto simp: document_ok_def panels_of_with_settings)
  next
    assume a: "document_ok data"
    then obtain doc where d: "data = JDict doc" by (cases data) (simp_all add: document_ok_def)
    with a obtain dash where dash: "dashboard_of doc = JDict dash"
      by (cases "dashboard_of doc") (simp_all add: document_ok_def)
    with a d have "loop_ok panel_ok (panels_of dash)" by (simp add: document_ok_def)
    then obtain panels' where
      "update_panel_queries repr (panels_of (with_settings cfg dash)) name = Inr panels'"
      using ok [of "panels_of dash"] by (auto simp: panels_of_with_settings)
    then show "\<exists>data'. enhance_document repr name cfg data = Inr data'"
      unfolding enhance_document_Inr using d dash by blast
  qed
qed

lemma enhance_document_settings:
  assumes "enhance_document repr name cfg data = Inr data'"
  shows "\<exists>doc' dash'. data' = JDict doc' \<and> map_of doc' ''dashboard'' = Some (JDict dash') \<and>
     map_of dash' ''templating'' =
       Some (JDict [(''list'', JList (get_common_variables @ specific_variables cfg))]) \<and>
     map_of dash' ''links'' = Some (create_links (drill_down_links cfg)) \<and>
     map_of dash' ''annotations'' = Some (create_annotations (alert_filter cfg))"
proof -
  from assms obtain doc dash panels' where
    d': "data' = JDict (AList.update ''dashboard''
                     (store_back (JDict (with_settings cfg dash)) ''panels'' panels') doc)"
    unfolding enhance_document_Inr by blast
  let ?ws = "with_settings cfg dash"
  let ?d2 = "if map_of ?ws ''panels'' \<noteq> None then AList.update ''panels'' panels' ?ws else ?ws"
  let ?doc2 = "AList.update ''dashboard'' (JDict ?d2) doc"
  have "data' = JDict ?doc2" unfolding d' store_back_JDict ..
  moreover have "map_of ?doc2 ''dashboard'' = Some (JDict ?d2)" by (simp add: update_conv')
  moreover have "map_of ?d2 ''templating'' =
       Some (JDict [(''list'', JList (get_common_variables @ specific_variables cfg))])"
    by (simp add: update_conv' with_settings_lookup)
  moreover have "map_of ?d2 ''links'' = Some (create_links (drill_down_links cfg))"
    by (simp add: update_conv' with_settings_lookup)
  moreover have "map_of ?d2 ''annotations'' = Some (create_annotations (alert_filter cfg))"
    by (simp add: update_conv' with_settings_lookup)
  ultimately show ?thesis by blast
qed

lemma common_variable_names:
  "map (\<lambda>v. getitem v ''name'') get_common_variables =
     [Inr (JStr ''datasource''), Inr (JStr ''namespace''), Inr (JStr ''instance''),
      Inr (JStr ''interval'')]"
  by (simp add: get_common_variables_def)

section \<open>The frame of a run\<close>

lemma unchanged_except_refl: "unchanged_except ks a a"
  by (simp add: unchanged_except_def)

lemma unchanged_except_update:
  "k \<in> ks \<Longrightarrow> unchanged_except ks a b \<Longrightarrow> unchanged_except ks a (AList.update k v b)"
  by (auto simp: unchanged_except_def update_conv')

lemma unchanged_except_mono: "ks \<subseteq> ks' \<Longrightarrow> unchanged_except ks a b \<Longrightarrow> unchanged_except ks' a b"
  by (auto simp: unchanged_except_def)

lemma target_frame_refl: "target_frame t t"
  by (cases t) (simp_all add: unchanged_except_refl)

lemma targets_frame_refl: "targets_frame x x"
  by (cases x) (simp_all add: list_all2_same target_frame_refl)

lemma update_target_frame:
  assumes "update_target t = Inr t'"
  shows "target_frame t t'"
proof (cases t)
  case (JDict kvs)
  show ?thesis
  proof (cases "map_of kvs ''expr''")
    case None
    with assms JDict have "t' = t" by (simp add: update_target_JDict)
    then show ?thesis by (simp add: target_frame_refl)
  next
    case (Some v)
    with assms JDict obtain e where
      t': "t' = JDict (if map_of kvs ''refId'' = None
                      then AList.update ''refId'' (JStr ''A'') (AList.update ''expr'' (JStr (update_expr e)) kvs)
                      else AList.update ''expr'' (JStr (update_expr e)) kvs)"
      by (auto simp: update_target_JDict bind_Inr_iff update_expr_value_Inr)
    show ?thesis unfolding JDict t'
      by (simp add: unchanged_except_update unchanged_except_refl del: AList.update.simps)
  qed
next
  case (JList xs)
  with assms show ?thesis by (auto simp: update_target_JList split: if_splits)
next
  case (JStr s)
  with assms show ?thesis by (auto simp: update_target_JStr split: if_splits)
next
  case JNull
  with assms show ?thesis by (simp add: update_target_def)
next
  case (JBool b)
  with assms show ?thesis by (simp add: update_target_def)
next
  case (JInt i)
  with assms show ?thesis by (simp add: update_target_def)
next
  case (JFloat r)
  with assms show ?thesis by (simp add: update_target_def)
qed

lemma for_each_cases:
  assumes "for_each f x = Inr r"
  shows "(\<exists>xs ys. x = JList xs \<and> r = JList ys \<and> list_all2 (\<lambda>a b. f a = Inr b) xs ys)
         \<or> ((\<forall>xs. x \<noteq> JList xs) \<and> r = x)"
proof (cases "\<exists>xs. x = JList xs")
  case True
  with assms show ?thesis by (auto simp: for_each_JList_Inr)
next
  case False
  with assms have "r = x" using for_each_not_list by blast
  with False show ?thesis by blast
qed

lemma for_each_targets_frame:
  assumes "for_each update_target ts = Inr ts'"
  shows "targets_frame ts ts'"
proof -
  from for_each_cases [OF assms] show ?thesis
  proof
    assume "\<exists>xs ys. ts = JList xs \<and> ts' = JList ys \<and> list_all2 (\<lambda>a b. update_target a = Inr b) xs ys"
    then obtain xs ys where 1: "ts = JList xs" "ts' = JList ys"
      "list_all2 (\<lambda>a b. update_target a = Inr b) xs ys" by blast
    from 1(3) have "list_all2 target_frame xs ys"
      by (rule list_all2_mono) (rule update_target_frame)
    with 1 show ?thesis by simp
  next
    assume "(\<forall>xs. ts \<noteq> JList xs) \<and> ts' = ts"
    then show ?thesis by (simp add: targets_frame_refl)
  qed
qed

lemma update_panel_frame:
  assumes "update_panel repr p = Inr p'"
  shows "panel_frame p p'"
proof -
  from assms obtain kvs k1 where p: "p = JDict kvs"
    and k1: "case map_of kvs ''targets'' of
           None \<Rightarrow> k1 = kvs
         | Some ts \<Rightarrow> \<exists>ts'. for_each update_target ts = Inr ts' \<and> k1 = AList.update ''targets'' ts' kvs"
    and p': "p' = JDict (if lacks_description kvs
                    then AList.update ''description'' (default_description repr kvs) k1
                    else k1)"
    unfolding update_panel_Inr by blast
  let ?k2 = "if lacks_description kvs
             then AList.update ''description'' (default_description repr kvs) k1 else k1"
  have u1: "unchanged_except {''targets'', ''description''} kvs k1"
    using k1 by (cases "map_of kvs ''targets''")
      (auto simp: unchanged_except_refl unchanged_except_update simp del: AList.update.simps)
  have u2: "unchanged_except {''targets'', ''description''} kvs ?k2"
    using u1 by (simp add: unchanged_except_update del: AList.update.simps)
  have t2: "map_of ?k2 ''targets'' = map_of k1 ''targets''" by (simp add: update_conv')
  have r: "rel_option targets_frame (map_of kvs ''targets'') (map_of k1 ''targets'')"
  proof (cases "map_of kvs ''targets''")
    case None
    with k1 show ?thesis by simp
  next
    case (Some ts)
    with k1 obtain ts' where ts': "for_each update_target ts = Inr ts'"
      "k1 = AList.update ''targets'' ts' kvs" by auto
    have "map_of k1 ''targets'' = Some ts'" using ts'(2) by (simp add: update_conv')
    then show ?thesis using Some for_each_targets_frame [OF ts'(1)] by simp
  qed
  show ?thesis unfolding panel_frame_def p p' using u2 r t2 by auto
qed

lemma panels_frame_refl_empty: "iter x = Inr [] \<Longrightarrow> panels_frame x x"
  by (cases x) simp_all

lemma update_panel_queries_frame:
  assumes "update_panel_queries repr panels name = Inr panels'"
  shows "panels_frame panels panels'"
proof -
  from assms have a: "for_each (update_panel repr) panels = Inr panels'"
    by (simp add: update_panel_queries_def)
  from for_each_cases [OF a] show ?thesis
  proof
    assume "\<exists>xs ys. panels = JList xs \<and> panels' = JList ys \<and>
      list_all2 (\<lambda>a b. update_panel repr a = Inr b) xs ys"
    then obtain xs ys where 1: "panels = JList xs" "panels' = JList ys"
      "list_all2 (\<lambda>a b. update_panel repr a = Inr b) xs ys" by blast
    from 1(3) have "list_all2 panel_frame xs ys"
      by (rule list_all2_mono) (rule update_panel_frame)
    with 1 show ?thesis by simp
  next
    assume b: "(\<forall>xs. panels \<noteq> JList xs) \<and> panels' = panels"
    then show ?thesis by (cases panels) simp_all
  qed
qed

lemma enhance_document_frame:
  assumes "enhance_document repr name cfg data = Inr data'"
  shows "document_frame data data'"
proof -
  from assms obtain doc dash panels' where d: "data = JDict doc"
    and dash: "dashboard_of doc = JDict dash"
    and p: "update_panel_queries repr (panels_of (with_settings cfg dash)) name = Inr panels'"
    and d': "data' = JDict (AList.update ''dashboard''
                     (store_back (JDict (with_settings cfg dash)) ''panels'' panels') doc)"
    unfolding enhance_document_Inr by blast
  let ?ws = "with_settings cfg dash"
  let ?d2 = "if map_of ?ws ''panels'' \<noteq> None then AList.update ''panels'' panels' ?ws else ?ws"
  let ?doc2 = "AList.update ''dashboard'' (JDict ?d2) doc"
  have d'2: "data' = JDict ?doc2" unfolding d' store_back_JDict ..
  have 1: "map_of ?doc2 ''dashboard'' = Some (JDict ?d2)" by (simp add: update_conv')
  have 2: "unchanged_except {''dashboard''} doc ?doc2"
    by (simp add: unchanged_except_update unchanged_except_refl del: AList.update.simps)
  have ws: "unchanged_except {''templating'', ''links'', ''annotations'', ''panels''} dash ?ws"
    by (simp add: unchanged_except_def with_settings_other)
  have 3: "unchanged_except {''templating'', ''links'', ''annotations'', ''panels''} dash ?d2"
    using ws by (simp add: unchanged_except_update del: AList.update.simps)
  have pf: "panels_frame (panels_of dash) panels'"
    using update_panel_queries_frame [OF p] by (simp add: panels_of_with_settings)
  have pw: "map_of ?ws ''panels'' = map_of dash ''panels''" by (simp add: with_settings_other)
  have 4: "rel_option panels_frame (map_of dash ''panels'') (map_of ?d2 ''panels'')"
  proof (cases "map_of dash ''panels''")
    case None
    then show ?thesis using pw by simp
  next
    case (Some ps)
    then have "panels_of dash = ps" by (simp add: panels_of_def)
    with pf have "panels_frame ps panels'" by simp
    then show ?thesis using Some pw by (simp add: update_conv')
  qed
  have "dashboard_frame (dashboard_of doc) (JDict ?d2)"
    unfolding dashboard_frame_def dash using 3 4 by blast
  with 1 2 show ?thesis unfolding document_frame_def d d'2 by blast
qed

section \<open>What the panel update establishes\<close>

lemma target_post_same: "\<not> has_key ''expr'' t \<Longrightarrow> target_post t t"
  by (simp add: target_post_def)

lemma update_target_post:
  assumes "update_target t = Inr t'"
  shows "target_post t t'"
proof (cases t)
  case (JDict kvs)
  show ?thesis
  proof (cases "map_of kvs ''expr''")
    case None
    with assms JDict have "t' = t" by (simp add: update_target_JDict)
    then show ?thesis using None JDict by (simp add: target_post_def)
  next
    case (Some v)
    with assms JDict obtain e where
      t': "t' = JDict (if map_of kvs ''refId'' = None
                      then AList.update ''refId'' (JStr ''A'') (AList.update ''expr'' (JStr (update_expr e)) kvs)
                      else AList.update ''expr'' (JStr (update_expr e)) kvs)"
      by (auto simp: update_target_JDict bind_Inr_iff update_expr_value_Inr)
    show ?thesis unfolding JDict t' target_post_def
      by (cases "map_of kvs ''refId''") (simp_all add: update_conv' del: AList.update.simps)
  qed
next
  case (JList xs)
  with assms have "t' = t" by (auto simp: update_target_JList split: if_splits)
  then show ?thesis using JList by (simp add: target_post_def)
next
  case (JStr s)
  with assms have "t' = t" by (auto simp: update_target_JStr split: if_splits)
  then show ?thesis using JStr by (simp add: target_post_def)
next
  case JNull
  with assms show ?thesis by (simp add: update_target_def)
next
  case (JBool b)
  with assms show ?thesis by (simp add: update_target_def)
next
  case (JInt i)
  with assms show ?thesis by (simp add: update_target_def)
next
  case (JFloat r)
  with assms show ?thesis by (simp add: update_target_def)
qed

lemma targets_post_refl: "(\<forall>xs. x \<noteq> JList xs) \<Longrightarrow> targets_post x x"
  by (cases x) simp_all

lemma for_each_targets_post:
  assumes "for_each update_target ts = Inr ts'"
  shows "targets_post ts ts'"
proof -
  from for_each_cases [OF assms] show ?thesis
  proof
    assume "\<exists>xs ys. ts = JList xs \<and> ts' = JList ys \<and> list_all2 (\<lambda>a b. update_target a = Inr b) xs ys"
    then obtain xs ys where 1: "ts = JList xs" "ts' = JList ys"
      "list_all2 (\<lambda>a b. update_target a = Inr b) xs ys" by blast
    from 1(3) have "list_all2 target_post xs ys"
      by (rule list_all2_mono) (rule update_target_post)
    with 1 show ?thesis by simp
  next
    assume "(\<forall>xs. ts \<noteq> JList xs) \<and> ts' = ts"
    then show ?thesis by (simp add: targets_post_refl)
  qed
qed

lemma update_panel_post:
  assumes "update_panel repr p = Inr p'"
  shows "panel_post repr p p'"
proof -
  from assms obtain kvs k1 where p: "p = JDict kvs"
    and k1: "case map_of kvs ''targets'' of
           None \<Rightarrow> k1 = kvs
         | Some ts \<Rightarrow> \<exists>ts'. for_each update_target ts = Inr ts' \<and> k1 = AList.update ''targets'' ts' kvs"
    and p': "p' = JDict (if lacks_description kvs
                    then AList.update ''description'' (default_description repr kvs) k1
                    else k1)"
    unfolding update_panel_Inr by blast
  let ?k2 = "if lacks_description kvs
             then AList.update ''description'' (default_description repr kvs) k1 else k1"
  have t2: "map_of ?k2 ''targets'' = map_of k1 ''targets''" by (simp add: update_conv')
  have d1: "map_of k1 ''description'' = map_of kvs ''description''"
    using k1 by (cases "map_of kvs ''targets''") (auto simp: update_conv')
  have a: "lacks_description kvs \<longrightarrow> map_of ?k2 ''description'' = Some (default_description repr kvs)"
    by (simp add: update_conv')
  have b: "\<not> lacks_description kvs \<longrightarrow> map_of ?k2 ''description'' = map_of kvs ''description''"
    using d1 by simp
  have c: "\<exists>d. map_of ?k2 ''description'' = Some d \<and> truthy d"
  proof (cases "lacks_description kvs")
    case True
    with a show ?thesis using default_description_truthy by simp
  next
    case False
    then obtain d where "map_of kvs ''description'' = Some d" "truthy d"
      by (cases "map_of kvs ''description''") (simp_all add: lacks_description_def)
    with b False show ?thesis by simp
  qed
  have r: "rel_option targets_post (map_of kvs ''targets'') (map_of ?k2 ''targets'')"
  proof (cases "map_of kvs ''targets''")
    case None
    with k1 t2 show ?thesis by simp
  next
    case (Some ts)
    with k1 obtain ts' where ts': "for_each update_target ts = Inr ts'"
      "k1 = AList.update ''targets'' ts' kvs" by auto
    have "map_of k1 ''targets'' = Some ts'" using ts'(2) by (simp add: update_conv')
    then show ?thesis using Some for_each_targets_post [OF ts'(1)] t2 by simp
  qed
  show ?thesis
    unfolding panel_post_def p p' using a b c r
    unfolding default_description_def by blast
qed

lemma for_each_update_panel_no_items:
  assumes "for_each (update_panel repr) x = Inr r" "\<forall>xs. x \<noteq> JList xs"
  shows "iter x = Inr []"
proof -
  from assms(1) obtain items ys where it: "iter x = Inr items" and m: "mapM (update_panel repr) items = Inr ys"
    by (auto simp: for_each_def bind_Inr_iff)
  from m have l: "list_all2 (\<lambda>a b. update_panel repr a = Inr b) items ys" by (simp add: mapM_Inr_iff)
  have "\<forall>i \<in> set items. \<exists>s. i = JStr s"
    using it assms(2) by (cases x) auto
  moreover have "\<forall>i \<in> set items. \<exists>kvs. i = JDict kvs"
    using l update_panel_dict by (induction rule: list_all2_induct) auto
  ultimately have "items = []" by (cases items) auto
  with it show ?thesis by simp
qed

lemma update_panel_queries_post:
  assumes "update_panel_queries repr panels name = Inr panels'"
  shows "panels_post repr panels panels'"
proof -
  from assms have a: "for_each (update_panel repr) panels = Inr panels'"
    by (simp add: update_panel_queries_def)
  from for_each_cases [OF a] show ?thesis
  proof
    assume "\<exists>xs ys. panels = JList xs \<and> panels' = JList ys \<and>
      list_all2 (\<lambda>a b. update_panel repr a = Inr b) xs ys"
    then obtain xs ys where 1: "panels = JList xs" "panels' = JList ys"
      "list_all2 (\<lambda>a b. update_panel repr a = Inr b) xs ys" by blast
    from 1(3) have "list_all2 (panel_post repr) xs ys"
      by (rule list_all2_mono) (rule update_panel_post)
    with 1 show ?thesis by simp
  next
    assume b: "(\<forall>xs. panels \<noteq> JList xs) \<and> panels' = panels"
    then have "iter panels = Inr []" using a for_each_update_panel_no_items by blast
    with b show ?thesis by (cases panels) simp_all
  qed
qed

lemma str_int_3: "str_int 3 = ''3''"
  by (simp add: str_int_def digits.simps)

section \<open>Facts about the files and the main loop\<close>

lemma enhance_document_written:
  assumes "enhance_document repr name cfg data = Inr data'"
  shows "\<exists>doc dash dash'. data = JDict doc \<and> dashboard_of doc = JDict dash \<and>
     data' = JDict (AList.update ''dashboard'' (JDict dash') doc) \<and>
     map_of dash' ''templating'' =
       Some (JDict [(''list'', JList (get_common_variables @ specific_variables cfg))]) \<and>
     map_of dash' ''links'' = Some (create_links (drill_down_links cfg)) \<and>
     map_of dash' ''annotations'' = Some (create_annotations (alert_filter cfg)) \<and>
     rel_option (\<lambda>ps ps'. update_panel_queries repr ps name = Inr ps')
       (map_of dash ''panels'') (map_of dash' ''panels'')"
proof -
  from assms obtain doc dash panels' where d: "data = JDict doc"
    and dash: "dashboard_of doc = JDict dash"
    and p: "update_panel_queries repr (panels_of (with_settings cfg dash)) name = Inr panels'"
    and d': "data' = JDict (AList.update ''dashboard''
                     (store_back (JDict (with_settings cfg dash)) ''panels'' panels') doc)"
    unfolding enhance_document_Inr by blast
  let ?ws = "with_settings cfg dash"
  let ?d2 = "if map_of ?ws ''panels'' \<noteq> None then AList.update ''panels'' panels' ?ws else ?ws"
  have 1: "data' = JDict (AList.update ''dashboard'' (JDict ?d2) doc)"
    unfolding d' store_back_JDict ..
  have 2: "map_of ?d2 ''templating'' =
       Some (JDict [(''list'', JList (get_common_variables @ specific_variables cfg))])"
    by (simp add: update_conv' with_settings_lookup)
  have 3: "map_of ?d2 ''links'' = Some (create_links (drill_down_links cfg))"
    by (simp add: update_conv' with_settings_lookup)
  have 4: "map_of ?d2 ''annotations'' = Some (create_annotations (alert_filter cfg))"
    by (simp add: update_conv' with_settings_lookup)
  have pw: "map_of ?ws ''panels'' = map_of dash ''panels''" by (simp add: with_settings_other)
  have 5: "rel_option (\<lambda>ps ps'. update_panel_queries repr ps name = Inr ps')
       (map_of dash ''panels'') (map_of ?d2 ''panels'')"
  proof (cases "map_of dash ''panels''")
    case None
    then show ?thesis using pw by simp
  next
    case (Some ps)
    then have "panels_of dash = ps" by (simp add: panels_of_def)
    with p have "update_panel_queries repr ps name = Inr panels'"
      by (simp add: panels_of_with_settings)
    then show ?thesis using Some pw by (simp add: update_conv')
  qed
  from d dash 1 2 3 4 5 show ?thesis by blast
qed


lemma print_raises: "print_error w m = Some e \<Longrightarrow> print m w = (Inl e, w)"
  by (simp add: print_def)

lemma print_files: "files (snd (print m w)) = files w"
  by (cases "print_error w m") (simp_all add: print_def)

lemma print_result:
  "fst (print m w) = (case print_error w m of None \<Rightarrow> Inr () | Some e \<Rightarrow> Inl e)"
  by (cases "print_error w m") (simp_all add: print_def)

lemma enhance_dashboard_written:
  assumes "print_error w (Enhancing path) = None"
    and "files w path = Some (Doc data)"
    and "enhance_document repr path cfg data = Inr data'"
    and "write_outcome_of w path data' = Written"
  shows "enhance_dashboard repr path cfg w =
     print (Enhanced path)
       (w\<lparr>files := (files w)(path \<mapsto> Doc data'), out := out w @ [Enhancing path]\<rparr>)"
  using assms
  by (cases "print_error w (Enhanced path)")
     (simp_all add: enhance_dashboard_def print_def load_def dump_def)


lemma enhance_dashboard_dump_raises:
  assumes "print_error w (Enhancing path) = None"
    and "files w path = Some (Doc data)"
    and "enhance_document repr path cfg data = Inr data'"
    and "write_outcome_of w path data' = Dump_raises e c"
  shows "enhance_dashboard repr path cfg w =
     (Inl e, w\<lparr>files := (files w)(path \<mapsto> c), out := out w @ [Enhancing path]\<rparr>)"
  using assms by (simp add: enhance_dashboard_def print_def load_def dump_def)

lemma enhance_dashboard_raises:
  assumes "print_error w (Enhancing path) = None"
    and "files w path = Some (Doc data)"
    and "enhance_document repr path cfg data = Inl e"
  shows "enhance_dashboard repr path cfg w = (Inl e, w\<lparr>out := out w @ [Enhancing path]\<rparr>)"
  using assms by (simp add: enhance_dashboard_def print_def load_def)











section \<open>The sample document and the sample directory\<close>

lemma str_int_7: "str_int 7 = ''7''"
  by (simp add: str_int_def digits.simps)

lemma sample_panel_update: "update_panel no_repr sample_panel = Inr sample_panel_enhanced"
  by (simp add: sample_panel_def sample_panel_enhanced_def update_panel_def for_each_def
      update_target_def update_expr_def add_namespace_filter_def strip_def isspace_def Let_def
      str_int_7)

lemma sample_enhance:
  "enhance_document no_repr ''database.json'' database_config sample_document
     = Inr sample_document_enhanced"
  by (simp add: sample_document_def sample_document_enhanced_def enhance_document_def
      update_panel_queries_def for_each_def sample_panel_update Let_def)

lemma sample_document_ok: "document_ok sample_document"
  using enhance_document_ok sample_enhance by blast

lemma sample_annotations:
  "create_annotations (alert_filter database_config) = JDict [(''list'', JList [sample_annotation])]"
  by (simp add: create_annotations_def database_config_def sample_annotation_def)

lemma sample_world_files:
  "files sample_world ''message-processing.json'' = None"
  "files sample_world ''database.json'' = Some (Doc sample_document)"
  "files sample_world ''infrastructure.json'' = Some (Unloadable JSONDecodeError)"
  "files sample_world ''overview-dashboard.json'' = Some (Doc (JDict []))"
  "files sample_world ''security.json'' = Some (Doc (JList []))"
  by (simp_all add: sample_world_def)




lemma empty_document_ok: "document_ok (JDict [])"
  by (simp add: document_ok_def dashboard_of_def panels_of_def loop_ok_def)

lemma security_list_raises:
  "enhance_document no_repr ''security.json'' security_config (JList []) = Inl AttributeError"
  by (simp add: enhance_document_def)


section \<open>The claims\<close>

subsection \<open>C1: the filter placeholders\<close>

text \<open>
  C1 says that a target expression containing \<^verbatim>\<open>birthday_scheduler_\<close> and no
  \<^verbatim>\<open>namespace=\<close> gets the two placeholders, right after its first \<^verbatim>\<open>{\<close> or,
  without braces, as a new label set directly after the metric name, and that any
  other expression keeps its filters. The facts \<open>add_namespace_filter_injects\<close>,
  \<open>add_namespace_filter_brace\<close> and \<open>add_namespace_filter_skip\<close> above establish the
  injection, the brace case and the expressions left alone. Without braces the label
  set follows what \<^const>\<open>metric_name_of\<close> returns: the text before the first
  \<^verbatim>\<open>[\<close> and after the last \<^verbatim>\<open>(\<close>. For an aggregation over a plain metric, with
  no range selector, that text ends with the closing parenthesis, and the panel below
  comes out with the label set after \<^verbatim>\<open>)\<close>, not after the metric name.
\<close>

theorem C1_label_set_after_closing_parenthesis:
  \<open>update_panel_queries repr
     (JList [JDict [
        (''id'', JInt 1),
        (''title'', JStr ''Queue depth''),
        (''description'', JStr ''Messages waiting''),
        (''targets'', JList [JDict [
           (''expr'', JStr ''sum(birthday_scheduler_queue_depth)''),
           (''refId'', JStr ''A'')]])]]) name
   = Inr (JList [JDict [
        (''id'', JInt 1),
        (''title'', JStr ''Queue depth''),
        (''description'', JStr ''Messages waiting''),
        (''targets'', JList [JDict [
           (''expr'', JStr ''sum(birthday_scheduler_queue_depth){namespace="$namespace", instance=~"$instance"}''),
           (''refId'', JStr ''A'')]])]])\<close>
  by (simp add: update_panel_queries_def for_each_def update_panel_def update_target_def
      update_expr_def add_namespace_filter_def strip_def isspace_def Let_def)

subsection \<open>C2: the templating variables\<close>

text \<open>
  C2: on every run that returns, the dashboard's \<^verbatim>\<open>templating\<close> field is the object
  \<^verbatim>\<open>{"list": L}\<close> with \<open>L\<close> the four common variables (datasource, namespace,
  instance, interval, in that order) followed by the configuration's specific
  variables. The value is a function of the configuration alone, so the variables the
  document had before play no part.
\<close>

theorem C2_templating_list:
  assumes "enhance_document repr name cfg data = Inr data'"
  shows "(\<exists>doc' dash'. data' = JDict doc' \<and> map_of doc' ''dashboard'' = Some (JDict dash') \<and>
            map_of dash' ''templating'' =
              Some (JDict [(''list'', JList (get_common_variables @ specific_variables cfg))]))
         \<and> map (\<lambda>v. getitem v ''name'') get_common_variables =
              [Inr (JStr ''datasource''), Inr (JStr ''namespace''), Inr (JStr ''instance''),
               Inr (JStr ''interval'')]"
  using enhance_document_settings [OF assms] common_variable_names by blast

theorem C2_templating_list_witness:
  "enhance_document no_repr ''database.json'' database_config sample_document
     = Inr sample_document_enhanced
   \<and> at_path [''dashboard'', ''templating''] sample_document_enhanced
     = Inr (JDict [(''list'', JList (get_common_variables @ specific_variables database_config))])
   \<and> at_path [''dashboard'', ''templating''] sample_document
     = Inr (JDict [(''list'', JList [JDict [(''name'', JStr ''job'')]])])"
proof -
  have "at_path [''dashboard'', ''templating''] sample_document_enhanced
     = Inr (JDict [(''list'', JList (get_common_variables @ specific_variables database_config))])"
    by (simp add: sample_document_enhanced_def)
  moreover have "at_path [''dashboard'', ''templating''] sample_document
     = Inr (JDict [(''list'', JList [JDict [(''name'', JStr ''job'')]])])"
    by (simp add: sample_document_def)
  ultimately show ?thesis
    using C2_templating_list [OF sample_enhance] sample_enhance by blast
qed

subsection \<open>C3: the interval variable\<close>

text \<open>
  C3 says that in every target expression each occurrence of the window \<^verbatim>\<open>[5m]\<close>
  becomes \<^verbatim>\<open>[$interval]\<close> and that every other window stays as it is. The
  replacement runs on what the filter step returns. Where the filter step leaves the
  expression alone this is what happens (\<open>update_expr_skip\<close>, \<open>window_subst_5m\<close>,
  \<open>window_subst_other\<close> and \<open>window_subst_clean\<close> above). Without braces the filter
  step replaces every occurrence of the text it takes for the metric name, inside the
  windows too: in the target below that text is \<^verbatim>\<open>m\<close>, the window \<^verbatim>\<open>[5m]\<close> is broken
  up before the replacement looks for it, so no \<^verbatim>\<open>[$interval]\<close> appears, and the
  window \<^verbatim>\<open>[1m]\<close> is altered.
\<close>

theorem C3_windows_rewritten_by_filter_step:
  \<open>update_target (JDict [
       (''expr'', JStr ''rate(m[5m]) + rate(birthday_scheduler_x[1m])''),
       (''refId'', JStr ''A'')])
   = Inr (JDict [
       (''expr'', JStr ''rate(m{namespace="$namespace", instance=~"$instance"}[5m{namespace="$namespace", instance=~"$instance"}]) + rate(birthday_scheduler_x[1m{namespace="$namespace", instance=~"$instance"}])''),
       (''refId'', JStr ''A'')])\<close>
  by (simp add: update_target_def update_expr_def add_namespace_filter_def strip_def isspace_def
      Let_def)

subsection \<open>C4: skip and continue\<close>




subsection \<open>C5: the alert annotation\<close>

text \<open>
  C5 as stated makes the \<^verbatim>\<open>annotations\<close> field a list. On the sample document the
  field is the object \<^verbatim>\<open>{"list": [entry]}\<close>, which is not the list \<^verbatim>\<open>[entry]\<close>.
\<close>

theorem C5_annotations_not_a_list:
  "enhance_document no_repr ''database.json'' database_config sample_document
     = Inr sample_document_enhanced
   \<and> at_path [''dashboard'', ''annotations''] sample_document_enhanced
     = Inr (JDict [(''list'', JList [sample_annotation])])
   \<and> JDict [(''list'', JList [sample_annotation])] \<noteq> JList [sample_annotation]"
proof -
  have "at_path [''dashboard'', ''annotations''] sample_document_enhanced
     = Inr (JDict [(''list'', JList [sample_annotation])])"
    by (simp add: sample_document_enhanced_def sample_annotations)
  then show ?thesis using sample_enhance by simp
qed

text \<open>
  C5, amended: on every run that returns, the \<^verbatim>\<open>annotations\<close> field is an object
  whose only key \<^verbatim>\<open>list\<close> holds a list of exactly one annotation entry, and the
  entry's expression is \<^verbatim>\<open>ALERTS{alertname=~"F", namespace="$namespace"}\<close> for the
  alert filter \<open>F\<close> of the configuration.
\<close>

theorem C5_annotations_entry:
  assumes "enhance_document repr name cfg data = Inr data'"
  shows \<open>\<exists>doc' dash' entry. data' = JDict doc' \<and> map_of doc' ''dashboard'' = Some (JDict dash') \<and>
            map_of dash' ''annotations'' = Some (JDict [(''list'', JList [JDict entry])]) \<and>
            map_of entry ''expr'' =
              Some (JStr (''ALERTS{alertname=~"'' @ alert_filter cfg @ ''", namespace="$namespace"}''))\<close>
proof -
  from enhance_document_settings [OF assms] obtain doc' dash' where
    1: "data' = JDict doc'" "map_of doc' ''dashboard'' = Some (JDict dash')"
    "map_of dash' ''annotations'' = Some (create_annotations (alert_filter cfg))" by blast
  show ?thesis
    using 1 unfolding create_annotations_def
    by (intro exI conjI) (assumption, assumption, assumption, simp)
qed

theorem C5_annotations_entry_witness:
  \<open>enhance_document no_repr ''database.json'' database_config sample_document
     = Inr sample_document_enhanced
   \<and> at_path [''dashboard'', ''annotations'', ''list''] sample_document_enhanced
     = Inr (JList [sample_annotation])
   \<and> getitem sample_annotation ''expr'' = Inr (JStr ''ALERTS{alertname=~"DBConnectionPoolExhausted|DatabaseDown|DBConnectionPoolHigh|SlowQueries|DatabaseQueryLatency", namespace="$namespace"}'')\<close>
proof -
  have "at_path [''dashboard'', ''annotations'', ''list''] sample_document_enhanced
     = Inr (JList [sample_annotation])"
    by (simp add: sample_document_enhanced_def sample_annotations)
  moreover have \<open>getitem sample_annotation ''expr'' = Inr (JStr ''ALERTS{alertname=~"DBConnectionPoolExhausted|DatabaseDown|DBConnectionPoolHigh|SlowQueries|DatabaseQueryLatency", namespace="$namespace"}'')\<close>
    by (simp add: sample_annotation_def)
  ultimately show ?thesis
    using C5_annotations_entry [OF sample_enhance] sample_enhance by blast
qed

subsection \<open>C6: the dashboard links\<close>

text \<open>
  C6: on every run that returns, the \<^verbatim>\<open>links\<close> field is a list with one entry per
  configured link, in the configured order; each entry carries the link's title, url
  and tooltip and the constants icon \<^verbatim>\<open>dashboard\<close>, type \<^verbatim>\<open>link\<close> and
  targetBlank false.
\<close>

theorem C6_links:
  assumes "enhance_document repr name cfg data = Inr data'"
  shows "\<exists>doc' dash'. data' = JDict doc' \<and> map_of doc' ''dashboard'' = Some (JDict dash') \<and>
           map_of dash' ''links'' = Some (JList (map (\<lambda>link. JDict [
             (''title'', JStr (title link)),
             (''url'', JStr (url link)),
             (''icon'', JStr ''dashboard''),
             (''tooltip'', JStr (tooltip link)),
             (''type'', JStr ''link''),
             (''targetBlank'', JBool False)]) (drill_down_links cfg)))"
proof -
  have "create_links (drill_down_links cfg) = JList (map (\<lambda>link. JDict [
             (''title'', JStr (title link)),
             (''url'', JStr (url link)),
             (''icon'', JStr ''dashboard''),
             (''tooltip'', JStr (tooltip link)),
             (''type'', JStr ''link''),
             (''targetBlank'', JBool False)]) (drill_down_links cfg))"
    unfolding create_links_def create_link_def ..
  moreover from enhance_document_settings [OF assms] obtain doc' dash' where
    "data' = JDict doc'" "map_of doc' ''dashboard'' = Some (JDict dash')"
    "map_of dash' ''links'' = Some (create_links (drill_down_links cfg))" by blast
  ultimately show ?thesis by auto
qed

theorem C6_links_witness:
  "enhance_document no_repr ''database.json'' database_config sample_document
     = Inr sample_document_enhanced
   \<and> at_path [''dashboard'', ''links''] sample_document_enhanced
     = Inr (JList [
         JDict [
           (''title'', JStr ''Infrastructure Dashboard''),
           (''url'', JStr ''/d/infrastructure?var-namespace=$namespace&var-instance=$instance&from=$__from&to=$__to''),
           (''icon'', JStr ''dashboard''),
           (''tooltip'', JStr ''View system resource impact on database''),
           (''type'', JStr ''link''),
           (''targetBlank'', JBool False)],
         JDict [
           (''title'', JStr ''Overview Dashboard''),
           (''url'', JStr ''/d/overview?var-namespace=$namespace&from=$__from&to=$__to''),
           (''icon'', JStr ''dashboard''),
           (''tooltip'', JStr ''Return to overview dashboard''),
           (''type'', JStr ''link''),
           (''targetBlank'', JBool False)]])"
proof -
  have "at_path [''dashboard'', ''links''] sample_document_enhanced
     = Inr (JList [
         JDict [
           (''title'', JStr ''Infrastructure Dashboard''),
           (''url'', JStr ''/d/infrastructure?var-namespace=$namespace&var-instance=$instance&from=$__from&to=$__to''),
           (''icon'', JStr ''dashboard''),
           (''tooltip'', JStr ''View system resource impact on database''),
           (''type'', JStr ''link''),
           (''targetBlank'', JBool False)],
         JDict [
           (''title'', JStr ''Overview Dashboard''),
           (''url'', JStr ''/d/overview?var-namespace=$namespace&from=$__from&to=$__to''),
           (''icon'', JStr ''dashboard''),
           (''tooltip'', JStr ''Return to overview dashboard''),
           (''type'', JStr ''link''),
           (''targetBlank'', JBool False)]])"
    by (simp add: sample_document_enhanced_def create_links_def create_link_def
        database_config_def overview_link_def)
  then show ?thesis
    using C6_links [OF sample_enhance] sample_enhance by blast
qed

subsection \<open>C7: read, enhance, write back\<close>

text \<open>
  C7 as stated holds of every configured file that exists. In the sample directory
  \<^verbatim>\<open>security.json\<close> exists and holds the JSON list \<^verbatim>\<open>[]\<close>: the routine raises
  \<^verbatim>\<open>AttributeError\<close> at \<^verbatim>\<open>data.get\<close> and the file stays as it was. And
  \<^verbatim>\<open>overview-dashboard.json\<close> exists and holds a document the enhancement accepts, but
  \<^verbatim>\<open>json.dump\<close> raises after the file was truncated: the file is left with text that
  no longer loads, not with the enhanced document.
\<close>

theorem C7_raises_or_breaks_the_file:
  "files sample_world ''security.json'' = Some (Doc (JList []))
   \<and> fst (enhance_dashboard no_repr ''security.json'' security_config sample_world)
       = Inl AttributeError
   \<and> files (snd (enhance_dashboard no_repr ''security.json'' security_config sample_world))
       ''security.json'' = Some (Doc (JList []))
   \<and> files sample_world ''overview-dashboard.json'' = Some (Doc (JDict []))
   \<and> document_ok (JDict [])
   \<and> fst (enhance_dashboard no_repr ''overview-dashboard.json'' overview_dashboard_config
         sample_world) = Inl OSError
   \<and> files (snd (enhance_dashboard no_repr ''overview-dashboard.json'' overview_dashboard_config
         sample_world)) ''overview-dashboard.json'' = Some (Unloadable JSONDecodeError)"
proof -
  have p: "\<And>m. print_error sample_world m = None"
    by (simp add: sample_world_def utf8_stdout_def)
  have a: "enhance_dashboard no_repr ''security.json'' security_config sample_world
      = (Inl AttributeError, sample_world\<lparr>out := out sample_world @ [Enhancing ''security.json'']\<rparr>)"
    using p sample_world_files(5) security_list_raises by (rule enhance_dashboard_raises)
  obtain d where d: "enhance_document no_repr ''overview-dashboard.json''
      overview_dashboard_config (JDict []) = Inr d"
    using enhance_document_ok empty_document_ok by blast
  have w: "write_outcome_of sample_world ''overview-dashboard.json'' d
      = Dump_raises OSError (Unloadable JSONDecodeError)"
    by (simp add: sample_world_def sample_writes_def)
  have b: "enhance_dashboard no_repr ''overview-dashboard.json'' overview_dashboard_config sample_world
      = (Inl OSError, sample_world\<lparr>
           files := (files sample_world)(''overview-dashboard.json'' \<mapsto> Unloadable JSONDecodeError),
           out := out sample_world @ [Enhancing ''overview-dashboard.json'']\<rparr>)"
    using p sample_world_files(4) d w by (rule enhance_dashboard_dump_raises)
  show ?thesis
    unfolding a b using sample_world_files(4,5) empty_document_ok by simp
qed

text \<open>
  C7, amended: for a file that exists and on which nothing raises before the write is
  complete (the announcement prints, the file loads as a document, the enhancement
  returns, the file opens and \<^verbatim>\<open>json.dump\<close> completes), the routine has read the
  document, set the templating variables, the links and the annotations of its
  dashboard, updated the panels, and written the resulting document to the same path,
  leaving every other file alone. The write stands whether or not the success line
  then prints. The enhancement returns exactly on the documents of
  \<^const>\<open>document_ok\<close>.
\<close>

theorem C7_read_enhance_write:
  "(files w path = Some (Doc data) \<and> print_error w (Enhancing path) = None \<and>
    enhance_document repr path cfg data = Inr data' \<and>
    write_outcome_of w path data' = Written \<longrightarrow>
      files (snd (enhance_dashboard repr path cfg w)) = (files w)(path \<mapsto> Doc data')
      \<and> fst (enhance_dashboard repr path cfg w)
          = (case print_error w (Enhanced path) of None \<Rightarrow> Inr () | Some e \<Rightarrow> Inl e)
      \<and> (\<exists>doc dash dash'. data = JDict doc \<and> dashboard_of doc = JDict dash \<and>
            data' = JDict (AList.update ''dashboard'' (JDict dash') doc) \<and>
            map_of dash' ''templating'' =
              Some (JDict [(''list'', JList (get_common_variables @ specific_variables cfg))]) \<and>
            map_of dash' ''links'' = Some (create_links (drill_down_links cfg)) \<and>
            map_of dash' ''annotations'' = Some (create_annotations (alert_filter cfg)) \<and>
            rel_option (\<lambda>ps ps'. update_panel_queries repr ps path = Inr ps')
              (map_of dash ''panels'') (map_of dash' ''panels'')))
   \<and> ((\<exists>d. enhance_document repr path cfg data = Inr d) = document_ok data)"
proof (intro conjI impI)
  assume a: "files w path = Some (Doc data) \<and> print_error w (Enhancing path) = None \<and>
    enhance_document repr path cfg data = Inr data' \<and>
    write_outcome_of w path data' = Written"
  then have e: "enhance_dashboard repr path cfg w =
     print (Enhanced path)
       (w\<lparr>files := (files w)(path \<mapsto> Doc data'), out := out w @ [Enhancing path]\<rparr>)"
    using enhance_dashboard_written by blast
  show "files (snd (enhance_dashboard repr path cfg w)) = (files w)(path \<mapsto> Doc data')"
    unfolding e print_files by simp
  show "fst (enhance_dashboard repr path cfg w)
          = (case print_error w (Enhanced path) of None \<Rightarrow> Inr () | Some e \<Rightarrow> Inl e)"
    unfolding e print_result by simp
  from a have "enhance_document repr path cfg data = Inr data'" by simp
  then show "\<exists>doc dash dash'. data = JDict doc \<and> dashboard_of doc = JDict dash \<and>
            data' = JDict (AList.update ''dashboard'' (JDict dash') doc) \<and>
            map_of dash' ''templating'' =
              Some (JDict [(''list'', JList (get_common_variables @ specific_variables cfg))]) \<and>
            map_of dash' ''links'' = Some (create_links (drill_down_links cfg)) \<and>
            map_of dash' ''annotations'' = Some (create_annotations (alert_filter cfg)) \<and>
            rel_option (\<lambda>ps ps'. update_panel_queries repr ps path = Inr ps')
              (map_of dash ''panels'') (map_of dash' ''panels'')"
    by (rule enhance_document_written)
next
  show "(\<exists>d. enhance_document repr path cfg data = Inr d) = document_ok data"
    by (rule enhance_document_ok)
qed

theorem C7_read_enhance_write_witness:
  "files sample_world ''database.json'' = Some (Doc sample_document)
   \<and> print_error sample_world (Enhancing ''database.json'') = None
   \<and> enhance_document no_repr ''database.json'' database_config sample_document
       = Inr sample_document_enhanced
   \<and> write_outcome_of sample_world ''database.json'' sample_document_enhanced = Written
   \<and> files (snd (enhance_dashboard no_repr ''database.json'' database_config sample_world))
       = (files sample_world)(''database.json'' \<mapsto> Doc sample_document_enhanced)
   \<and> fst (enhance_dashboard no_repr ''database.json'' database_config sample_world) = Inr ()
   \<and> document_ok sample_document"
proof -
  have 1: "print_error sample_world (Enhancing ''database.json'') = None"
    "print_error sample_world (Enhanced ''database.json'') = None"
    by (simp_all add: sample_world_def utf8_stdout_def)
  have 2: "write_outcome_of sample_world ''database.json'' sample_document_enhanced = Written"
    by (simp add: sample_world_def sample_writes_def)
  from C7_read_enhance_write [where w = sample_world and path = "''database.json''"
      and data = sample_document and data' = sample_document_enhanced
      and repr = no_repr and cfg = database_config]
    sample_world_files(2) 1 2 sample_enhance sample_document_ok
  show ?thesis by simp
qed

subsection \<open>C8: what a run leaves alone\<close>

text \<open>
  C8: on every run that returns, the document keeps every top-level key other than
  \<^verbatim>\<open>dashboard\<close>; the dashboard keeps every key other than \<^verbatim>\<open>templating\<close>,
  \<^verbatim>\<open>links\<close>, \<^verbatim>\<open>annotations\<close> and \<^verbatim>\<open>panels\<close>; the panels stay as many, and each
  keeps every key other than \<^verbatim>\<open>targets\<close> and \<^verbatim>\<open>description\<close>; the targets stay as
  many, and each keeps every key other than \<^verbatim>\<open>expr\<close> and \<^verbatim>\<open>refId\<close>.
\<close>

theorem C8_frame:
  assumes "enhance_document repr name cfg data = Inr data'"
  shows "document_frame data data'"
  using assms by (rule enhance_document_frame)

theorem C8_frame_witness:
  "enhance_document no_repr ''database.json'' database_config sample_document
     = Inr sample_document_enhanced
   \<and> document_frame sample_document sample_document_enhanced
   \<and> getitem sample_document ''overwrite'' = Inr (JBool True)
   \<and> getitem sample_document_enhanced ''overwrite'' = Inr (JBool True)
   \<and> at_path [''dashboard'', ''title''] sample_document = Inr (JStr ''Database'')
   \<and> at_path [''dashboard'', ''title''] sample_document_enhanced
       = Inr (JStr ''Database'')
   \<and> getitem sample_panel ''type'' = Inr (JStr ''graph'')
   \<and> getitem sample_panel_enhanced ''type'' = Inr (JStr ''graph'')"
proof -
  have "getitem sample_document ''overwrite'' = Inr (JBool True)"
    "at_path [''dashboard'', ''title''] sample_document = Inr (JStr ''Database'')"
    by (simp_all add: sample_document_def)
  moreover have "getitem sample_document_enhanced ''overwrite'' = Inr (JBool True)"
    "at_path [''dashboard'', ''title''] sample_document_enhanced
       = Inr (JStr ''Database'')"
    by (simp_all add: sample_document_enhanced_def)
  moreover have "getitem sample_panel ''type'' = Inr (JStr ''graph'')"
    by (simp add: sample_panel_def)
  moreover have "getitem sample_panel_enhanced ''type'' = Inr (JStr ''graph'')"
    by (simp add: sample_panel_enhanced_def)
  ultimately show ?thesis
    using C8_frame [OF sample_enhance] sample_enhance by blast
qed

subsection \<open>C9: enhancing twice\<close>

text \<open>
  C9: the transformation of the document is idempotent. Running it on its own result
  returns that result again, and a run that raises has nothing to run on a second
  time, so running twice is the same as running once.
\<close>

theorem C9_enhancement_idempotent:
  "bind (enhance_document repr name cfg data) (enhance_document repr name cfg)
     = enhance_document repr name cfg data"
proof (cases "enhance_document repr name cfg data")
  case (Inl e)
  then show ?thesis by simp
next
  case (Inr data')
  then show ?thesis by (simp add: enhance_document_idem)
qed

theorem C9_enhancement_idempotent_witness:
  "enhance_document no_repr ''database.json'' database_config sample_document
     = Inr sample_document_enhanced
   \<and> enhance_document no_repr ''database.json'' database_config sample_document_enhanced
     = Inr sample_document_enhanced"
  using C9_enhancement_idempotent [of no_repr "''database.json''" database_config sample_document]
  by (simp add: sample_enhance)

subsection \<open>C10: reference ids and descriptions\<close>

text \<open>
  C10: after the panel update has run, every target that has an \<^verbatim>\<open>expr\<close> key has a
  \<^verbatim>\<open>refId\<close> key (\<^verbatim>\<open>A\<close> wherever it was absent), and every panel has a non-empty
  description: a panel whose description was missing or empty has
  \<^verbatim>\<open>Panel <id>: <title>\<close>, with \<^verbatim>\<open>No title\<close> for a panel without a title.
\<close>

theorem C10_refId_and_description:
  assumes "update_panel_queries repr panels name = Inr panels'"
  shows "panels_post repr panels panels'"
  using assms by (rule update_panel_queries_post)

theorem C10_refId_and_description_witness:
  "update_panel_queries no_repr (JList [sample_panel, JDict [(''id'', JInt 3), (''description'', JStr [])]])
       ''database.json''
     = Inr (JList [sample_panel_enhanced,
                   JDict [(''id'', JInt 3), (''description'', JStr ''Panel 3: No title'')]])
   \<and> panels_post no_repr
       (JList [sample_panel, JDict [(''id'', JInt 3), (''description'', JStr [])]])
       (JList [sample_panel_enhanced,
               JDict [(''id'', JInt 3), (''description'', JStr ''Panel 3: No title'')]])
   \<and> getitem sample_panel_enhanced ''description'' = Inr (JStr ''Panel 7: Query rate'')"
proof -
  have 1: "update_panel_queries no_repr
      (JList [sample_panel, JDict [(''id'', JInt 3), (''description'', JStr [])]]) ''database.json''
     = Inr (JList [sample_panel_enhanced,
                   JDict [(''id'', JInt 3), (''description'', JStr ''Panel 3: No title'')]])"
    by (simp add: update_panel_queries_def for_each_def sample_panel_update update_panel_JDict
        lacks_description_def default_description_def str_int_3)
  have 2: "getitem sample_panel_enhanced ''description'' = Inr (JStr ''Panel 7: Query rate'')"
    by (simp add: sample_panel_enhanced_def)
  from C10_refId_and_description [OF 1] 1 2 show ?thesis by blast
qed

end
